theory Spec2Isabelle
  imports Main "HOL-Library.Word" "HOL-Library.AList"
begin

section \<open>Values shared by both packages\<close>

text \<open>
  A Go call either returns or does not: it panics on a nil dereference and on a \<^verbatim>\<open>make\<close>
  with a capacity that is negative or out of range. \<open>Panics\<close> is a value of the model, not
  an error result.
\<close>

datatype 'a outcome = Returns 'a | Panics

text \<open>
  The \<^verbatim>\<open>error\<close> values of the two packages. \<open>ErrUpstream\<close> stands for an error handed
  back by lnd, the swap server, the swap store or the key parser.
\<close>

datatype error =
    ErrZeroChannelID
  | ErrInvalidRule "64 word" string
  | ErrInvalidSweepFeeRateLimit
  | ErrConfTarget "32 word"
  | ErrUpstream string

text \<open>\<^verbatim>\<open>btcutil.Amount\<close> and \<^verbatim>\<open>chainfee.SatPerKWeight\<close> are \<^verbatim>\<open>int64\<close>: arithmetic wraps,
  comparisons read the word with \<open>sint\<close>.\<close>

type_synonym Amount = "64 word"

text \<open>\<^verbatim>\<open>route.Vertex\<close> is \<^verbatim>\<open>[33]byte\<close>; only equality and the key parser look at it.\<close>

type_synonym Vertex = "8 word list"

text \<open>
  The types of \<^verbatim>\<open>lndclient\<close> are declared outside the source files; the records hold the
  fields the code reads. A \<^verbatim>\<open>*RoutingPolicy\<close> that is nil is \<open>None\<close>.
\<close>

record ChannelInfo =
  ChannelID :: "64 word"
  PubKeyBytes :: Vertex
  Capacity :: Amount
  LocalBalance :: Amount
  RemoteBalance :: Amount
  Private :: bool

record RoutingPolicy =
  FeeBaseMsat :: "64 word"
  FeeRateMilliMsat :: "64 word"
  TimeLockDelta :: "32 word"

record ChannelEdge =
  ChannelPoint :: string
  Node1 :: Vertex
  Node1Policy :: "RoutingPolicy option"
  Node2Policy :: "RoutingPolicy option"

text \<open>
  The node backend, as one snapshot: every query of a call sees the same answers.
  \<open>GetChanInfo\<close> gives the Go pair (pointer, error) as it is.
\<close>

record LndServices =
  ListChannels :: "error + ChannelInfo list"
  GetChanInfo :: "64 word \<Rightarrow> ChannelEdge option \<times> error option"
  EstimateFee :: "32 word \<Rightarrow> error + 64 word"

section \<open>Hop hint selection\<close>

text \<open>\<^verbatim>\<open>zpay32.HopHint\<close>; its channel id field is named \<open>HopChannelID\<close> here, apart from
  the field of \<open>ChannelInfo\<close>. \<open>'pk\<close> is the parsed public key.\<close>

record 'pk HopHint =
  NodeID :: 'pk
  HopChannelID :: "64 word"
  FeeBaseMSat :: "32 word"
  FeeProportionalMillionths :: "32 word"
  CLTVExpiryDelta :: "16 word"

text \<open>\<^verbatim>\<open>FetchChannelEdgesByID\<close> reads the fields of the edge before it looks at the error: a
  nil edge panics.\<close>

definition FetchChannelEdgesByID ::
  "LndServices \<Rightarrow> 64 word \<Rightarrow>
   (Vertex \<times> RoutingPolicy option \<times> RoutingPolicy option \<times> error option) outcome" where
  "FetchChannelEdgesByID lnd chanID =
     (case GetChanInfo lnd chanID of
        (None, err) \<Rightarrow> Panics
      | (Some chanInfo, err) \<Rightarrow>
          Returns (Node1 chanInfo, Node1Policy chanInfo, Node2Policy chanInfo, err))"

fun IsPublicNode :: "ChannelInfo list \<Rightarrow> Vertex \<Rightarrow> bool" where
  "IsPublicNode [] pubKey = True"
| "IsPublicNode (c # channels) pubKey =
     (if PubKeyBytes c = pubKey \<and> Private c then False
      else IsPublicNode channels pubKey)"

text \<open>The last parameter of \<^verbatim>\<open>chanCanBeHopHint\<close> is never read by its body.\<close>

definition chanCanBeHopHint ::
  "LndServices \<Rightarrow> ChannelInfo list \<Rightarrow> ChannelInfo \<Rightarrow> ChannelEdge option \<Rightarrow>
   (RoutingPolicy option \<times> bool) outcome" where
  "chanCanBeHopHint lnd channels channel chanInfo =
     (if \<not> IsPublicNode channels (PubKeyBytes channel) then Returns (None, False)
      else
        (case FetchChannelEdgesByID lnd (ChannelID channel) of
           Panics \<Rightarrow> Panics
         | Returns (serializedPubKey, p1, p2, err) \<Rightarrow>
             (if err \<noteq> None then Returns (None, False)
              else Returns
                (if PubKeyBytes channel = serializedPubKey then p1 else p2, True))))"

text \<open>The hint both passes build: the fees and the delta are those of \<open>Node2Policy\<close> of the
  edge at hand, cut to 32 and 16 bits.\<close>

definition mkHopHint :: "'pk \<Rightarrow> ChannelInfo \<Rightarrow> RoutingPolicy \<Rightarrow> 'pk HopHint" where
  "mkHopHint nodeID channel pol =
     \<lparr> NodeID = nodeID,
       HopChannelID = ChannelID channel,
       FeeBaseMSat = ucast (FeeBaseMsat pol),
       FeeProportionalMillionths = ucast (FeeRateMilliMsat pol),
       CLTVExpiryDelta = ucast (TimeLockDelta pol) \<rparr>"

text \<open>
  The state of the first loop: \<open>hopHints\<close>, \<open>hopHintChans\<close>, \<open>totalHintBandwidth\<close>.
  \<open>include_nodes\<close> is a map used as a set; \<open>None\<close> is the nil map.
\<close>

type_synonym 'pk pass1_state = "'pk HopHint list list \<times> string set \<times> Amount"

text \<open>One iteration of the first loop (lines 297 to 347). \<open>Returns (Inr s)\<close> goes on to the
  next channel, \<open>Returns (Inl err)\<close> is \<^verbatim>\<open>return nil, err\<close>. The \<open>chanInfo\<close> of this loop is
  its own variable, declared by \<^verbatim>\<open>:=\<close> inside the body.\<close>

definition pass1_body ::
  "LndServices \<Rightarrow> (Vertex \<Rightarrow> error + 'pk) \<Rightarrow> ChannelInfo list \<Rightarrow> Amount \<Rightarrow>
   Vertex set option \<Rightarrow> ChannelInfo \<Rightarrow> 'pk pass1_state \<Rightarrow> (error + 'pk pass1_state) outcome" where
  "pass1_body lnd ParsePubKey openChannels amtMSat include_nodes channel s =
     (case s of (hopHints, hopHintChans, totalHintBandwidth) \<Rightarrow>
      if sint (RemoteBalance channel) < sint amtMSat then Returns (Inr s)
      else if include_nodes \<noteq> None \<and> PubKeyBytes channel \<notin> the include_nodes
        then Returns (Inr s)
      else
        (case GetChanInfo lnd (ChannelID channel) of
           (chanInfo, Some err) \<Rightarrow> Returns (Inl err)
         | (chanInfo, None) \<Rightarrow>
             (case chanCanBeHopHint lnd openChannels channel chanInfo of
                Panics \<Rightarrow> Panics
              | Returns (edgePolicy, canBeHopHint) \<Rightarrow>
                  if edgePolicy = None \<or> \<not> canBeHopHint then Returns (Inr s)
                  else
                    (case GetChanInfo lnd (ChannelID channel) of
                       (chanInfo2, Some err) \<Rightarrow> Returns (Inl err)
                     | (chanInfo2, None) \<Rightarrow>
                         (case ParsePubKey (PubKeyBytes channel) of
                            Inl err \<Rightarrow> Returns (Inl err)
                          | Inr nodeID \<Rightarrow>
                              (case chanInfo2 of
                                 None \<Rightarrow> Panics
                               | Some ci \<Rightarrow>
                                   (case Node2Policy ci of
                                      None \<Rightarrow> Panics
                                    | Some pol \<Rightarrow>
                                        Returns (Inr
                                          (hopHints @ [[mkHopHint nodeID channel pol]],
                                           insert (ChannelPoint ci) hopHintChans,
                                           totalHintBandwidth + RemoteBalance channel)))))))))"

fun pass1 ::
  "LndServices \<Rightarrow> (Vertex \<Rightarrow> error + 'pk) \<Rightarrow> ChannelInfo list \<Rightarrow> Amount \<Rightarrow>
   Vertex set option \<Rightarrow> ChannelInfo list \<Rightarrow> 'pk pass1_state \<Rightarrow> (error + 'pk pass1_state) outcome" where
  "pass1 lnd ParsePubKey openChannels amtMSat include_nodes [] s = Returns (Inr s)"
| "pass1 lnd ParsePubKey openChannels amtMSat include_nodes (channel # rest) s =
     (case pass1_body lnd ParsePubKey openChannels amtMSat include_nodes channel s of
        Returns (Inr s') \<Rightarrow> pass1 lnd ParsePubKey openChannels amtMSat include_nodes rest s'
      | Returns (Inl err) \<Rightarrow> Returns (Inl err)
      | Panics \<Rightarrow> Panics)"

text \<open>
  One iteration of the second loop below its break test (lines 370 to 405). \<open>chanInfo\<close> is
  the variable of the enclosing function: the loop reads its \<open>ChannelPoint\<close> and its
  \<open>Node2Policy\<close>, whatever the channel at hand, and a nil \<open>chanInfo\<close> panics at the first
  read. A key that does not parse skips the channel.
\<close>

definition pass2_body ::
  "LndServices \<Rightarrow> (Vertex \<Rightarrow> error + 'pk) \<Rightarrow> ChannelInfo list \<Rightarrow> ChannelEdge option \<Rightarrow>
   string set \<Rightarrow> ChannelInfo \<Rightarrow> 'pk HopHint list list \<times> Amount \<Rightarrow>
   ('pk HopHint list list \<times> Amount) outcome" where
  "pass2_body lnd ParsePubKey openChannels chanInfo hopHintChans channel s =
     (case s of (hopHints, totalHintBandwidth) \<Rightarrow>
      (case chanInfo of
         None \<Rightarrow> Panics
       | Some ci \<Rightarrow>
           if ChannelPoint ci \<in> hopHintChans then Returns s
           else
             (case chanCanBeHopHint lnd openChannels channel chanInfo of
                Panics \<Rightarrow> Panics
              | Returns (remotePolicy, canBeHopHint) \<Rightarrow>
                  if \<not> canBeHopHint \<or> remotePolicy = None then Returns s
                  else
                    (case ParsePubKey (PubKeyBytes channel) of
                       Inl err \<Rightarrow> Returns s
                     | Inr nodeID \<Rightarrow>
                         (case Node2Policy ci of
                            None \<Rightarrow> Panics
                          | Some pol \<Rightarrow>
                              Returns
                                (hopHints @ [[mkHopHint nodeID channel pol]],
                                 totalHintBandwidth + RemoteBalance channel))))))"

text \<open>The second loop (lines 361 to 406) over the channels not yet visited. The break test
  multiplies in \<^verbatim>\<open>int64\<close>: \<open>amtMSat * 2\<close> wraps.\<close>

fun pass2 ::
  "LndServices \<Rightarrow> (Vertex \<Rightarrow> error + 'pk) \<Rightarrow> ChannelInfo list \<Rightarrow> Amount \<Rightarrow> int \<Rightarrow>
   ChannelEdge option \<Rightarrow> string set \<Rightarrow> ChannelInfo list \<Rightarrow>
   'pk HopHint list list \<times> Amount \<Rightarrow> ('pk HopHint list list) outcome" where
  "pass2 lnd ParsePubKey openChannels amtMSat numMaxHophints chanInfo hopHintChans [] s =
     Returns (fst s)"
| "pass2 lnd ParsePubKey openChannels amtMSat numMaxHophints chanInfo hopHintChans
     (channel # rest) s =
     (if sint (amtMSat * 2) < sint (snd s) \<or> numMaxHophints \<le> int (length (fst s))
      then Returns (fst s)
      else
        (case pass2_body lnd ParsePubKey openChannels chanInfo hopHintChans channel s of
           Panics \<Rightarrow> Panics
         | Returns s' \<Rightarrow>
             pass2 lnd ParsePubKey openChannels amtMSat numMaxHophints chanInfo hopHintChans
               rest s'))"

text \<open>
  \<^verbatim>\<open>SelectHopHints\<close>. \<open>numMaxHophints\<close> is a Go \<^verbatim>\<open>int\<close>, compared with lengths and
  handed to \<^verbatim>\<open>make\<close> as the capacity of \<open>hopHints\<close> (line 296). \<^verbatim>\<open>make\<close> does not return
  when the capacity is negative or larger than the runtime allocates; that bound belongs
  to the platform and is the parameter \<open>maxCap\<close>. The outer \<open>chanInfo\<close> is declared nil at
  line 294 and never assigned, so the second loop gets \<open>None\<close>.
\<close>

definition SelectHopHints ::
  "LndServices \<Rightarrow> (Vertex \<Rightarrow> error + 'pk) \<Rightarrow> int \<Rightarrow> Amount \<Rightarrow> int \<Rightarrow> Vertex set option \<Rightarrow>
   (error + 'pk HopHint list list) outcome" where
  "SelectHopHints lnd ParsePubKey maxCap amtMSat numMaxHophints include_nodes =
     (case ListChannels lnd of
        Inl err \<Rightarrow> Returns (Inl err)
      | Inr openChannels \<Rightarrow>
          if numMaxHophints < 0 \<or> maxCap < numMaxHophints then Panics
          else
            (case pass1 lnd ParsePubKey openChannels amtMSat include_nodes openChannels
                    ([], {}, 0) of
               Panics \<Rightarrow> Panics
             | Returns (Inl err) \<Rightarrow> Returns (Inl err)
             | Returns (Inr (hopHints, hopHintChans, totalHintBandwidth)) \<Rightarrow>
                 if numMaxHophints \<le> int (length hopHints) then Returns (Inr hopHints)
                 else
                   (case pass2 lnd ParsePubKey openChannels amtMSat numMaxHophints None
                           hopHintChans openChannels (hopHints, totalHintBandwidth) of
                      Panics \<Rightarrow> Panics
                    | Returns hs \<Rightarrow> Returns (Inr hs))))"

text \<open>The property the hints of a list keep through both loops: each names a listed
  channel, carries the parsed key of that channel's peer, and \<open>IsPublicNode\<close> accepts the
  peer.\<close>

definition hints_ok :: "(Vertex \<Rightarrow> error + 'pk) \<Rightarrow> ChannelInfo list \<Rightarrow> 'pk HopHint list list \<Rightarrow> bool" where
  "hints_ok P channels hs =
     (\<forall>hintGroup\<in>set hs. \<forall>h\<in>set hintGroup. \<exists>c\<in>set channels.
        ChannelID c = HopChannelID h \<and> P (PubKeyBytes c) = Inr (NodeID h) \<and>
        IsPublicNode channels (PubKeyBytes c))"

section \<open>Liquidity manager\<close>

subsection \<open>Parameters in memory\<close>

text \<open>
  \<^verbatim>\<open>lnwire.ShortChannelID\<close> is declared outside the source files. A channel id is kept in
  its 64-bit integer form, so the two conversions the code calls are the identity.
\<close>

type_synonym ShortChannelID = "64 word"

definition ToUint64 :: "ShortChannelID \<Rightarrow> 64 word" where
  "ToUint64 c = c"

definition NewShortChanIDFromInt :: "64 word \<Rightarrow> ShortChannelID" where
  "NewShortChanIDFromInt chanID = chanID"

text \<open>
  \<open>ChannelRules\<close> is a Go map of pointers, and the claims on copies depend on who shares
  what. The memory holds the rule objects and the map objects, each at the address that is
  its index; allocation appends. A map object is the list of its entries in the order a
  \<^verbatim>\<open>range\<close> visits them; a pointer is \<open>Some\<close> address, or \<open>None\<close> for nil. \<open>'rule\<close> is
  \<^verbatim>\<open>ThresholdRule\<close>, declared outside the source files.
\<close>

record 'rule store =
  rule_cells :: "'rule list"
  map_cells :: "(ShortChannelID \<times> nat option) list list"

record Parameters =
  FailureBackOff :: "64 word"
  SweepFeeRateLimit :: "64 word"
  SweepConfTarget :: "32 word"
  ChannelRules :: "nat option"

text \<open>The entries of a map (a nil map has none) and what a rule pointer refers to.\<close>

definition rules_of :: "'rule store \<Rightarrow> nat option \<Rightarrow> (ShortChannelID \<times> nat option) list" where
  "rules_of st m =
     (case m of
        None \<Rightarrow> []
      | Some a \<Rightarrow> if a < length (map_cells st) then map_cells st ! a else [])"

definition rule_at :: "'rule store \<Rightarrow> nat option \<Rightarrow> 'rule option" where
  "rule_at st p =
     (case p of
        None \<Rightarrow> None
      | Some a \<Rightarrow> if a < length (rule_cells st) then Some (rule_cells st ! a) else None)"

text \<open>
  \<^verbatim>\<open>Parameters.validate\<close>. The loop returns at the first entry it rejects. The rule's own
  \<^verbatim>\<open>validate\<close> is a parameter: it sees what the pointer refers to and gives the message of
  its error, if any. So is \<^verbatim>\<open>chainfee.AbsoluteFeePerKwFloor\<close>.
\<close>

fun validate_rules ::
  "('rule option \<Rightarrow> string option) \<Rightarrow> 'rule store \<Rightarrow> (ShortChannelID \<times> nat option) list \<Rightarrow>
   error option" where
  "validate_rules rule_validate st [] = None"
| "validate_rules rule_validate st ((channel, rule) # rest) =
     (if ToUint64 channel = 0 then Some ErrZeroChannelID
      else
        (case rule_validate (rule_at st rule) of
           Some err \<Rightarrow> Some (ErrInvalidRule (ToUint64 channel) err)
         | None \<Rightarrow> validate_rules rule_validate st rest))"

definition validate ::
  "('rule option \<Rightarrow> string option) \<Rightarrow> 64 word \<Rightarrow> 'rule store \<Rightarrow> Parameters \<Rightarrow> 32 word \<Rightarrow>
   error option" where
  "validate rule_validate AbsoluteFeePerKwFloor st p minConfs =
     (case validate_rules rule_validate st (rules_of st (ChannelRules p)) of
        Some err \<Rightarrow> Some err
      | None \<Rightarrow>
          if sint (SweepFeeRateLimit p) < sint AbsoluteFeePerKwFloor
            then Some ErrInvalidSweepFeeRateLimit
          else if sint (SweepConfTarget p) < sint minConfs then Some (ErrConfTarget minConfs)
          else None)"

text \<open>
  \<^verbatim>\<open>cloneParameters\<close>: a new map at address \<open>a\<close>, then for each entry of the source map a new
  rule object holding the copy, stored in the new map under the same key. \<^verbatim>\<open>*rule\<close> on a
  nil pointer panics.
\<close>

fun clone_rules ::
  "nat \<Rightarrow> (ShortChannelID \<times> nat option) list \<Rightarrow> 'rule store \<Rightarrow> 'rule store outcome" where
  "clone_rules a [] st = Returns st"
| "clone_rules a ((channel, rule) # rest) st =
     (case rule_at st rule of
        None \<Rightarrow> Panics
      | Some ruleCopy \<Rightarrow>
          clone_rules a rest
            (st\<lparr> rule_cells := rule_cells st @ [ruleCopy],
                 map_cells := (map_cells st)
                   [a := AList.update channel (Some (length (rule_cells st)))
                           (map_cells st ! a)] \<rparr>))"

definition cloneParameters ::
  "'rule store \<Rightarrow> Parameters \<Rightarrow> (Parameters \<times> 'rule store) outcome" where
  "cloneParameters st params =
     (let a = length (map_cells st) in
      case clone_rules a (rules_of st (ChannelRules params))
             (st\<lparr> map_cells := map_cells st @ [[]] \<rparr>) of
        Panics \<Rightarrow> Panics
      | Returns st' \<Rightarrow> Returns (params\<lparr> ChannelRules := Some a \<rparr>, st'))"

subsection \<open>The manager\<close>

text \<open>
  The swap records of \<^verbatim>\<open>loopdb\<close> are declared outside the source files. \<open>'st\<close> is
  \<^verbatim>\<open>loopdb.SwapState\<close>; its \<^verbatim>\<open>Type\<close> method and the constant
  \<^verbatim>\<open>StateFailOffchainPayments\<close> are parameters of the functions that use them. The
  records hold what the code reads of a swap: \<open>OutState\<close> and \<open>InState\<close> are
  \<^verbatim>\<open>State().State\<close>, \<open>OutgoingChanSet\<close> is \<^verbatim>\<open>Contract.OutgoingChanSet\<close>, \<open>OutLastUpdate\<close> is
  \<^verbatim>\<open>LastUpdate().Time\<close> and \<open>LastHop\<close> is \<^verbatim>\<open>Contract.LastHop\<close>, \<open>None\<close> when nil. A
  \<^verbatim>\<open>time.Time\<close> is its count of nanoseconds, an unbounded integer: \<^verbatim>\<open>Add\<close> adds the signed
  value of a duration and \<^verbatim>\<open>After\<close> is \<open>>\<close>. \<open>Clock_Now\<close> is what \<^verbatim>\<open>Clock.Now()\<close> gives
  during the call.
\<close>

datatype SwapStateType = StateTypePending | StateTypeSuccess | StateTypeFail

record 'st LoopOut =
  OutState :: 'st
  OutgoingChanSet :: "64 word list"
  OutLastUpdate :: int

record 'st LoopIn =
  InState :: 'st
  LastHop :: "Vertex option"

record ('st, 'restr) Config =
  LoopOutRestrictions :: "error + 'restr"
  Lnd :: LndServices
  ListLoopOut :: "error + 'st LoopOut list"
  ListLoopIn :: "error + 'st LoopIn list"
  Clock_Now :: int
  MinimumConfirmations :: "32 word"

text \<open>The mutex is left out: the model runs one call at a time.\<close>

record ('st, 'restr) Manager =
  cfg :: "('st, 'restr) Config"
  params :: Parameters

definition GetParameters ::
  "('st, 'restr) Manager \<Rightarrow> 'rule store \<Rightarrow> (Parameters \<times> 'rule store) outcome" where
  "GetParameters m st = cloneParameters st (params m)"

text \<open>\<^verbatim>\<open>SetParameters\<close> gives the error (or nil), the manager and the memory after the call.\<close>

definition SetParameters ::
  "('rule option \<Rightarrow> string option) \<Rightarrow> 64 word \<Rightarrow> ('st, 'restr) Manager \<Rightarrow> 'rule store \<Rightarrow>
   Parameters \<Rightarrow> (error option \<times> ('st, 'restr) Manager \<times> 'rule store) outcome" where
  "SetParameters rule_validate AbsoluteFeePerKwFloor m st p =
     (case validate rule_validate AbsoluteFeePerKwFloor st p (MinimumConfirmations (cfg m)) of
        Some err \<Rightarrow> Returns (Some err, m, st)
      | None \<Rightarrow>
          (case cloneParameters st p of
             Panics \<Rightarrow> Panics
           | Returns (paramCopy, st') \<Rightarrow> Returns (None, m\<lparr> params := paramCopy \<rparr>, st')))"

subsection \<open>What a caller can see and change\<close>

text \<open>
  The value of a \<open>Parameters\<close> in a memory: its three scalars and, for each channel id, the
  rule its map gives (\<open>None\<close> for no entry, \<open>Some None\<close> for a nil pointer). Two parameters
  are value-equal when these agree.
\<close>

definition params_value ::
  "'rule store \<Rightarrow> Parameters \<Rightarrow>
   64 word \<times> 64 word \<times> 32 word \<times> (ShortChannelID \<Rightarrow> 'rule option option)" where
  "params_value st p =
     (FailureBackOff p, SweepFeeRateLimit p, SweepConfTarget p,
      \<lambda>channel. map_option (rule_at st) (map_of (rules_of st (ChannelRules p)) channel))"

text \<open>
  What a caller who holds \<open>q\<close> can do to the memory \<open>st\<close> through \<open>q\<close>: write the map object
  of \<open>q\<close> (add, remove or replace entries), write the rule objects that map points to, and
  allocate new objects. Every other object of \<open>st\<close> is the same in \<open>st'\<close>.
\<close>

definition mutated_through :: "'rule store \<Rightarrow> Parameters \<Rightarrow> 'rule store \<Rightarrow> bool" where
  "mutated_through st q st' \<longleftrightarrow>
     length (rule_cells st) \<le> length (rule_cells st') \<and>
     length (map_cells st) \<le> length (map_cells st') \<and>
     (\<forall>a < length (map_cells st).
        Some a \<noteq> ChannelRules q \<longrightarrow> map_cells st' ! a = map_cells st ! a) \<and>
     (\<forall>a < length (rule_cells st).
        Some a \<notin> snd ` set (rules_of st (ChannelRules q)) \<longrightarrow>
        rule_cells st' ! a = rule_cells st ! a)"

subsection \<open>Eligible channels\<close>

text \<open>
  The first loop of \<^verbatim>\<open>getEligibleChannels\<close> (lines 373 to 425) over the loop out swaps, on
  \<open>existingOut\<close> and \<open>failedOut\<close>. \<open>None\<close> is the \<^verbatim>\<open>return nil, nil\<close> for an unrestricted
  pending swap.
\<close>

fun scanLoopOut ::
  "('st \<Rightarrow> SwapStateType) \<Rightarrow> 'st \<Rightarrow> int \<Rightarrow> 'st LoopOut list \<Rightarrow>
   ShortChannelID set \<times> (ShortChannelID \<rightharpoonup> int) \<Rightarrow>
   (ShortChannelID set \<times> (ShortChannelID \<rightharpoonup> int)) option" where
  "scanLoopOut Type StateFailOffchainPayments failureCutoff [] s = Some s"
| "scanLoopOut Type StateFailOffchainPayments failureCutoff (out # rest) s =
     (let state = OutState out;
          chanSet = OutgoingChanSet out;
          existingOut = fst s;
          failedOut =
            (if state = StateFailOffchainPayments \<and> failureCutoff < OutLastUpdate out
             then fold (\<lambda>id f. f(NewShortChanIDFromInt id \<mapsto> OutLastUpdate out)) chanSet (snd s)
             else snd s)
      in if Type state \<noteq> StateTypePending
           then scanLoopOut Type StateFailOffchainPayments failureCutoff rest
                  (existingOut, failedOut)
         else if length chanSet = 0 then None
         else scanLoopOut Type StateFailOffchainPayments failureCutoff rest
                (fold (\<lambda>id e. insert (NewShortChanIDFromInt id) e) chanSet existingOut,
                 failedOut))"

text \<open>The second loop (lines 427 to 441) over the loop in swaps, on \<open>existingIn\<close>.\<close>

fun scanLoopIn ::
  "('st \<Rightarrow> SwapStateType) \<Rightarrow> 'st LoopIn list \<Rightarrow> Vertex set \<Rightarrow> Vertex set option" where
  "scanLoopIn Type [] existingIn = Some existingIn"
| "scanLoopIn Type (swapIn # rest) existingIn =
     (if Type (InState swapIn) \<noteq> StateTypePending then scanLoopIn Type rest existingIn
      else
        (case LastHop swapIn of
           None \<Rightarrow> None
         | Some lastHop \<Rightarrow> scanLoopIn Type rest (insert lastHop existingIn)))"

text \<open>The test of the last loop (lines 453 to 482): a channel is kept when none of the
  three \<^verbatim>\<open>continue\<close> branches takes it.\<close>

definition channelEligible ::
  "ShortChannelID set \<Rightarrow> Vertex set \<Rightarrow> (ShortChannelID \<rightharpoonup> int) \<Rightarrow> ChannelInfo \<Rightarrow> bool" where
  "channelEligible existingOut existingIn failedOut channel =
     (let shortID = NewShortChanIDFromInt (ChannelID channel)
      in if failedOut shortID \<noteq> None then False
         else if shortID \<in> existingOut then False
         else if PubKeyBytes channel \<in> existingIn then False
         else True)"

text \<open>\<^verbatim>\<open>getEligibleChannels\<close>. The cutoff is \<^verbatim>\<open>Now().Add(FailureBackOff * -1)\<close>; the product
  is an \<^verbatim>\<open>int64\<close> and wraps. The channels are listed only when no swap is unrestricted.\<close>

definition getEligibleChannels ::
  "('st \<Rightarrow> SwapStateType) \<Rightarrow> 'st \<Rightarrow> ('st, 'restr) Manager \<Rightarrow> 'st LoopOut list \<Rightarrow>
   'st LoopIn list \<Rightarrow> error + ChannelInfo list" where
  "getEligibleChannels Type StateFailOffchainPayments m loopOut loopIn =
     (let failureCutoff = Clock_Now (cfg m) + sint (FailureBackOff (params m) * (- 1))
      in case scanLoopOut Type StateFailOffchainPayments failureCutoff loopOut
                ({}, Map.empty) of
           None \<Rightarrow> Inr []
         | Some (existingOut, failedOut) \<Rightarrow>
             (case scanLoopIn Type loopIn {} of
                None \<Rightarrow> Inr []
              | Some existingIn \<Rightarrow>
                  (case ListChannels (Lnd (cfg m)) of
                     Inl err \<Rightarrow> Inl err
                   | Inr channels \<Rightarrow>
                       Inr (filter (channelEligible existingOut existingIn failedOut)
                              channels))))"

subsection \<open>Suggestions\<close>

record LoopOutRecommendation =
  Amount :: Amount
  Channel :: ShortChannelID

text \<open>\<^verbatim>\<open>loop.OutRequest\<close>, the fields \<^verbatim>\<open>makeLoopOutRequest\<close> sets; three of them carry the
  prefix \<open>Req\<close> apart from the fields of the same name above.\<close>

record OutRequest =
  ReqAmount :: Amount
  ReqOutgoingChanSet :: "64 word list"
  MaxPrepayRoutingFee :: Amount
  MaxSwapRoutingFee :: Amount
  MaxMinerFee :: Amount
  MaxSwapFee :: Amount
  MaxPrepayAmount :: Amount
  ReqSweepConfTarget :: "32 word"

definition defaultSwapFeePPM :: "64 word" where "defaultSwapFeePPM = 5000"
definition defaultRoutingFeePPM :: "64 word" where "defaultRoutingFeePPM = 10000"
definition defaultPrepayRoutingFeePPM :: "64 word" where "defaultPrepayRoutingFeePPM = 5000"
definition defaultMaximumMinerFee :: Amount where "defaultMaximumMinerFee = 15000"
definition defaultMaximumPrepay :: Amount where "defaultMaximumPrepay = 30000"

text \<open>\<^verbatim>\<open>ppmToSat\<close> multiplies and divides as \<^verbatim>\<open>uint64\<close>: the product wraps, the division is
  unsigned.\<close>

definition ppmToSat :: "Amount \<Rightarrow> 64 word \<Rightarrow> Amount" where
  "ppmToSat amount ppm = (amount * ppm) div 1000000"

definition makeLoopOutRequest ::
  "('st, 'restr) Manager \<Rightarrow> LoopOutRecommendation \<Rightarrow> OutRequest" where
  "makeLoopOutRequest m suggestion =
     (let prepayMaxFee = ppmToSat defaultMaximumPrepay defaultPrepayRoutingFeePPM;
          routeMaxFee = ppmToSat (Amount suggestion) defaultRoutingFeePPM;
          maxSwapFee = ppmToSat (Amount suggestion) defaultSwapFeePPM
      in \<lparr> ReqAmount = Amount suggestion,
           ReqOutgoingChanSet = [ToUint64 (Channel suggestion)],
           MaxPrepayRoutingFee = prepayMaxFee,
           MaxSwapRoutingFee = routeMaxFee,
           MaxMinerFee = defaultMaximumMinerFee,
           MaxSwapFee = maxSwapFee,
           MaxPrepayAmount = defaultMaximumPrepay,
           ReqSweepConfTarget = SweepConfTarget (params m) \<rparr>)"

text \<open>
  The last loop of \<^verbatim>\<open>SuggestSwaps\<close> (lines 308 to 325). \<^verbatim>\<open>newBalances\<close> and the rule's
  \<^verbatim>\<open>suggestSwap\<close> are declared outside the source files and are parameters; the rule is
  passed as what its pointer refers to.
\<close>

fun suggest_loop ::
  "(ChannelInfo \<Rightarrow> 'bal) \<Rightarrow> ('rule option \<Rightarrow> 'bal \<Rightarrow> 'restr \<Rightarrow> LoopOutRecommendation option) \<Rightarrow>
   ('st, 'restr) Manager \<Rightarrow> 'rule store \<Rightarrow> 'restr \<Rightarrow> ChannelInfo list \<Rightarrow> OutRequest list \<Rightarrow>
   OutRequest list" where
  "suggest_loop newBalances suggestSwap m st outRestrictions [] suggestions = suggestions"
| "suggest_loop newBalances suggestSwap m st outRestrictions (channel # rest) suggestions =
     (let channelID = NewShortChanIDFromInt (ChannelID channel)
      in case map_of (rules_of st (ChannelRules (params m))) channelID of
           None \<Rightarrow> suggest_loop newBalances suggestSwap m st outRestrictions rest suggestions
         | Some rule \<Rightarrow>
             (let balance = newBalances channel
              in case suggestSwap (rule_at st rule) balance outRestrictions of
                   None \<Rightarrow>
                     suggest_loop newBalances suggestSwap m st outRestrictions rest suggestions
                 | Some suggestion \<Rightarrow>
                     suggest_loop newBalances suggestSwap m st outRestrictions rest
                       (suggestions @ [makeLoopOutRequest m suggestion])))"

definition SuggestSwaps ::
  "('st \<Rightarrow> SwapStateType) \<Rightarrow> 'st \<Rightarrow> (ChannelInfo \<Rightarrow> 'bal) \<Rightarrow>
   ('rule option \<Rightarrow> 'bal \<Rightarrow> 'restr \<Rightarrow> LoopOutRecommendation option) \<Rightarrow>
   ('st, 'restr) Manager \<Rightarrow> 'rule store \<Rightarrow> error + OutRequest list" where
  "SuggestSwaps Type StateFailOffchainPayments newBalances suggestSwap m st =
     (if length (rules_of st (ChannelRules (params m))) = 0 then Inr []
      else
        (case EstimateFee (Lnd (cfg m)) (SweepConfTarget (params m)) of
           Inl err \<Rightarrow> Inl err
         | Inr estimate \<Rightarrow>
             if sint (SweepFeeRateLimit (params m)) < sint estimate then Inr []
             else
               (case LoopOutRestrictions (cfg m) of
                  Inl err \<Rightarrow> Inl err
                | Inr outRestrictions \<Rightarrow>
                    (case ListLoopOut (cfg m) of
                       Inl err \<Rightarrow> Inl err
                     | Inr loopOut \<Rightarrow>
                         (case ListLoopIn (cfg m) of
                            Inl err \<Rightarrow> Inl err
                          | Inr loopIn \<Rightarrow>
                              (case getEligibleChannels Type StateFailOffchainPayments m
                                      loopOut loopIn of
                                 Inl err \<Rightarrow> Inl err
                               | Inr eligible \<Rightarrow>
                                   Inr (suggest_loop newBalances suggestSwap m st
                                          outRestrictions eligible [])))))))"

section \<open>Inputs for the examples\<close>

text \<open>
  The keys of three peers and of the node itself, each the 33 bytes of a
  \<^verbatim>\<open>route.Vertex\<close>. The keys of A and C are compressed points of the curve; the key of
  B starts with a byte that is no key format, so that no parser accepts it. The key of A
  is below the node's own and the keys of B and C are above it.
\<close>

definition ex_keyA :: Vertex where
  "ex_keyA =
     [0x02, 0x79, 0xBE, 0x66, 0x7E, 0xF9, 0xDC, 0xBB, 0xAC, 0x55, 0xA0,
      0x62, 0x95, 0xCE, 0x87, 0x0B, 0x07, 0x02, 0x9B, 0xFC, 0xDB, 0x2D,
      0xCE, 0x28, 0xD9, 0x59, 0xF2, 0x81, 0x5B, 0x16, 0xF8, 0x17, 0x98]"

definition ex_keyB :: Vertex where
  "ex_keyB =
     [0x05, 0xC6, 0x04, 0x7F, 0x94, 0x41, 0xED, 0x7D, 0x6D, 0x30, 0x45,
      0x40, 0x6E, 0x95, 0xC0, 0x7C, 0xD8, 0x5C, 0x77, 0x8E, 0x4B, 0x8C,
      0xEF, 0x3C, 0xA7, 0xAB, 0xAC, 0x09, 0xB9, 0x5C, 0x70, 0x9E, 0xE5]"

definition ex_keyC :: Vertex where
  "ex_keyC =
     [0x02, 0xF9, 0x30, 0x8A, 0x01, 0x92, 0x58, 0xC3, 0x10, 0x49, 0x34,
      0x4F, 0x85, 0xF8, 0x9D, 0x52, 0x29, 0xB5, 0x31, 0xC8, 0x45, 0x83,
      0x6F, 0x99, 0xB0, 0x86, 0x01, 0xF1, 0x13, 0xBC, 0xE0, 0x36, 0xF9]"

definition ex_keySelf :: Vertex where
  "ex_keySelf =
     [0x02, 0xE4, 0x93, 0xDB, 0xF1, 0xC1, 0x0D, 0x80, 0xF3, 0x58, 0x1E,
      0x49, 0x04, 0x93, 0x0B, 0x14, 0x04, 0xCC, 0x6C, 0x13, 0x90, 0x0E,
      0xE0, 0x75, 0x84, 0x74, 0xFA, 0x94, 0xAB, 0xE8, 0xC4, 0xCD, 0x13]"

text \<open>Channel A offers 150,000 and channel B 80,000, as in the scenario of the
  specification; channel C offers 120,000. All three are public.\<close>

definition ex_chanA :: ChannelInfo where
  "ex_chanA = \<lparr> ChannelID = 1, PubKeyBytes = ex_keyA, Capacity = 250000,
                LocalBalance = 100000, RemoteBalance = 150000, Private = False \<rparr>"

definition ex_chanB :: ChannelInfo where
  "ex_chanB = \<lparr> ChannelID = 2, PubKeyBytes = ex_keyB, Capacity = 100000,
                LocalBalance = 20000, RemoteBalance = 80000, Private = False \<rparr>"

definition ex_chanC :: ChannelInfo where
  "ex_chanC = \<lparr> ChannelID = 3, PubKeyBytes = ex_keyC, Capacity = 200000,
                LocalBalance = 80000, RemoteBalance = 120000, Private = False \<rparr>"

definition ex_polNode1 :: RoutingPolicy where
  "ex_polNode1 = \<lparr> FeeBaseMsat = 1000, FeeRateMilliMsat = 1, TimeLockDelta = 40 \<rparr>"

definition ex_polNode2 :: RoutingPolicy where
  "ex_polNode2 = \<lparr> FeeBaseMsat = 2000, FeeRateMilliMsat = 5, TimeLockDelta = 144 \<rparr>"

text \<open>The edges of the graph: the peer is the first node of channel 1 and the second node
  of channels 2 and 3.\<close>

definition ex_edgeA :: ChannelEdge where
  "ex_edgeA = \<lparr> ChannelPoint = ''aa:0'', Node1 = ex_keyA,
                Node1Policy = Some ex_polNode1, Node2Policy = Some ex_polNode2 \<rparr>"

definition ex_edgeB :: ChannelEdge where
  "ex_edgeB = \<lparr> ChannelPoint = ''bb:0'', Node1 = ex_keySelf,
                Node1Policy = Some ex_polNode1, Node2Policy = Some ex_polNode2 \<rparr>"

definition ex_edgeC :: ChannelEdge where
  "ex_edgeC = \<lparr> ChannelPoint = ''cc:1'', Node1 = ex_keySelf,
                Node1Policy = Some ex_polNode1, Node2Policy = Some ex_polNode2 \<rparr>"

definition ex_GetChanInfo :: "64 word \<Rightarrow> ChannelEdge option \<times> error option" where
  "ex_GetChanInfo chanID =
     (if chanID = 1 then (Some ex_edgeA, None)
      else if chanID = 2 then (Some ex_edgeB, None)
      else if chanID = 3 then (Some ex_edgeC, None)
      else (None, Some (ErrUpstream ''edge not found'')))"

definition ex_lnd :: "ChannelInfo list \<Rightarrow> LndServices" where
  "ex_lnd channels =
     \<lparr> ListChannels = Inr channels, GetChanInfo = ex_GetChanInfo,
       EstimateFee = (\<lambda>confTarget. Inr 253) \<rparr>"

text \<open>A bound on the capacity of a slice for the examples; each of them asks for five
  hints at most.\<close>

definition ex_maxCap :: int where
  "ex_maxCap = 1000000"

text \<open>A key parser that rejects the key of peer B.\<close>

definition ex_ParsePubKey :: "Vertex \<Rightarrow> error + Vertex" where
  "ex_ParsePubKey key =
     (if key = ex_keyB then Inl (ErrUpstream ''invalid key'') else Inr key)"

text \<open>The hint the code builds for channels A and C in these examples.\<close>

definition ex_hintA :: "Vertex HopHint" where
  "ex_hintA = \<lparr> NodeID = ex_keyA, HopChannelID = 1, FeeBaseMSat = 2000,
                FeeProportionalMillionths = 5, CLTVExpiryDelta = 144 \<rparr>"

definition ex_hintC :: "Vertex HopHint" where
  "ex_hintC = \<lparr> NodeID = ex_keyC, HopChannelID = 3, FeeBaseMSat = 2000,
                FeeProportionalMillionths = 5, CLTVExpiryDelta = 144 \<rparr>"

lemmas ex_hop_defs =
  ex_keyA_def ex_keyB_def ex_keyC_def ex_keySelf_def ex_chanA_def ex_chanB_def ex_chanC_def
  ex_polNode1_def ex_polNode2_def ex_edgeA_def ex_edgeB_def ex_edgeC_def ex_GetChanInfo_def
  ex_lnd_def ex_ParsePubKey_def ex_hintA_def ex_hintC_def ex_maxCap_def

lemmas hop_defs =
  pass1_body_def pass2_body_def chanCanBeHopHint_def FetchChannelEdgesByID_def mkHopHint_def
  SelectHopHints_def

text \<open>
  For the manager: swap states with their types, a rule of two percentages with its
  check, balances and a rule that always asks for the smallest swap, a memory of two rules
  and three maps (map 0 is valid, map 1 has a zero key, map 2 has an invalid rule), and a
  manager over channels A and B.
\<close>

datatype ex_SwapState =
  ExInitiated | ExFailTemporary | ExFailOffchainPayments | ExFailTimeout | ExSuccess

fun ex_Type :: "ex_SwapState \<Rightarrow> SwapStateType" where
  "ex_Type ExInitiated = StateTypePending"
| "ex_Type ExFailTemporary = StateTypePending"
| "ex_Type ExSuccess = StateTypeSuccess"
| "ex_Type ExFailOffchainPayments = StateTypeFail"
| "ex_Type ExFailTimeout = StateTypeFail"

type_synonym ex_rule = "nat \<times> nat"
type_synonym ex_balances = "64 word \<times> Amount \<times> Amount \<times> Amount"
type_synonym ex_restrictions = "Amount \<times> Amount"

definition ex_rule_validate :: "ex_rule option \<Rightarrow> string option" where
  "ex_rule_validate rule =
     (case rule of
        None \<Rightarrow> Some ''no rule''
      | Some (minIncoming, minOutgoing) \<Rightarrow>
          if 100 \<le> minIncoming + minOutgoing then Some ''thresholds sum to 100 or more''
          else None)"

definition ex_newBalances :: "ChannelInfo \<Rightarrow> ex_balances" where
  "ex_newBalances channel =
     (ChannelID channel, Capacity channel, RemoteBalance channel, LocalBalance channel)"

definition ex_suggestSwap ::
  "ex_rule option \<Rightarrow> ex_balances \<Rightarrow> ex_restrictions \<Rightarrow> LoopOutRecommendation option" where
  "ex_suggestSwap rule balance restrictions =
     (case rule of
        None \<Rightarrow> None
      | Some r \<Rightarrow> Some \<lparr> Amount = fst restrictions, Channel = fst balance \<rparr>)"

definition ex_store :: "ex_rule store" where
  "ex_store = \<lparr> rule_cells = [(10, 20), (60, 70)],
                 map_cells = [[(1, Some 0)], [(0, Some 0)], [(1, Some 0), (2, Some 1)]] \<rparr>"

definition ex_params :: "64 word \<Rightarrow> 64 word \<Rightarrow> 32 word \<Rightarrow> nat option \<Rightarrow> Parameters" where
  "ex_params backOff feeLimit confTarget rules =
     \<lparr> FailureBackOff = backOff, SweepFeeRateLimit = feeLimit,
       SweepConfTarget = confTarget, ChannelRules = rules \<rparr>"

definition ex_mgr ::
  "Parameters \<Rightarrow> ex_SwapState LoopOut list \<Rightarrow> ex_SwapState LoopIn list \<Rightarrow>
   (ex_SwapState, ex_restrictions) Manager" where
  "ex_mgr p swapsOut swapsIn =
     \<lparr> cfg = \<lparr> LoopOutRestrictions = Inr (250000, 2000000),
               Lnd = ex_lnd [ex_chanA, ex_chanB],
               ListLoopOut = Inr swapsOut, ListLoopIn = Inr swapsIn,
               Clock_Now = 1604000000000000000, MinimumConfirmations = 3 \<rparr>,
       params = p \<rparr>"

definition ex_failedOut :: "int \<Rightarrow> ex_SwapState LoopOut" where
  "ex_failedOut failedAt =
     \<lparr> OutState = ExFailOffchainPayments, OutgoingChanSet = [1], OutLastUpdate = failedAt \<rparr>"

definition ex_unrestrictedOut :: "ex_SwapState LoopOut" where
  "ex_unrestrictedOut =
     \<lparr> OutState = ExInitiated, OutgoingChanSet = [], OutLastUpdate = 1603999000000000000 \<rparr>"

text \<open>The memory of the example after \<open>SetParameters\<close>, after \<open>GetParameters\<close>, and after
  the caller has rewritten the rule and the map it was given.\<close>

definition ex_store_set :: "ex_rule store" where
  "ex_store_set = \<lparr> rule_cells = [(10, 20), (60, 70), (10, 20)],
       map_cells = [[(1, Some 0)], [(0, Some 0)], [(1, Some 0), (2, Some 1)], [(1, Some 2)]] \<rparr>"

definition ex_store_get :: "ex_rule store" where
  "ex_store_get = \<lparr> rule_cells = [(10, 20), (60, 70), (10, 20), (10, 20)],
       map_cells = [[(1, Some 0)], [(0, Some 0)], [(1, Some 0), (2, Some 1)], [(1, Some 2)],
                    [(1, Some 3)]] \<rparr>"

definition ex_store_mutated :: "ex_rule store" where
  "ex_store_mutated = \<lparr> rule_cells = [(10, 20), (60, 70), (10, 20), (50, 60)],
       map_cells = [[(1, Some 0)], [(0, Some 0)], [(1, Some 0), (2, Some 1)], [(1, Some 2)],
                    [(7, Some 3)]] \<rparr>"

lemmas ex_liq_defs =
  ex_rule_validate_def ex_newBalances_def ex_suggestSwap_def ex_store_def ex_params_def
  ex_mgr_def ex_failedOut_def ex_unrestrictedOut_def ex_lnd_def ex_chanA_def ex_chanB_def
  ex_keyA_def ex_keyB_def

lemmas liq_defs =
  ToUint64_def NewShortChanIDFromInt_def rules_of_def rule_at_def validate_def
  SetParameters_def cloneParameters_def GetParameters_def channelEligible_def
  getEligibleChannels_def SuggestSwaps_def makeLoopOutRequest_def ppmToSat_def

section \<open>Hop hint selection: how many hints\<close>

lemma pass2_body_fst:
  "pass2_body lnd P ocs ci hc channel s = Returns s' \<Longrightarrow>
   fst s' = fst s \<or> (\<exists>h. fst s' = fst s @ [[h]])"
  by (auto simp: pass2_body_def
      split: prod.splits option.splits if_splits outcome.splits sum.splits)

lemma pass2_length:
  "pass2 lnd P ocs amt n ci hc rest s = Returns hs \<Longrightarrow>
   int (length hs) \<le> max n (int (length (fst s)))"
proof (induction rest arbitrary: s)
  case Nil
  then show ?case by simp
next
  case (Cons channel rest)
  show ?case
  proof (cases "sint (amt * 2) < sint (snd s) \<or> n \<le> int (length (fst s))")
    case True
    with Cons.prems show ?thesis by auto
  next
    case False
    with Cons.prems obtain s' where
      b: "pass2_body lnd P ocs ci hc channel s = Returns s'" and
      r: "pass2 lnd P ocs amt n ci hc rest s' = Returns hs"
      by (auto split: outcome.splits)
    from pass2_body_fst [OF b] have "length (fst s') \<le> Suc (length (fst s))" by auto
    with False have "int (length (fst s')) \<le> n" by simp
    with Cons.IH [OF r] show ?thesis by simp
  qed
qed

lemma pass2_stops:
  "sint (amt * 2) < sint (snd s) \<or> n \<le> int (length (fst s)) \<or> rest = [] \<Longrightarrow>
   pass2 lnd P ocs amt n ci hc rest s = Returns (fst s)"
  by (cases rest) auto

lemma pass2_nil_chanInfo:
  "rest \<noteq> [] \<Longrightarrow> \<not> sint (amt * 2) < sint (snd s) \<Longrightarrow> int (length (fst s)) < n \<Longrightarrow>
   pass2 lnd P ocs amt n None hc rest s = Panics"
  by (cases rest) (auto simp: pass2_body_def split: prod.splits)

lemma pass1_body_fst:
  "pass1_body lnd P ocs amt inc channel s = Returns (Inr s') \<Longrightarrow>
   fst s' = fst s \<or> (\<exists>h. fst s' = fst s @ [[h]])"
  by (auto simp: pass1_body_def
      split: prod.splits option.splits if_splits outcome.splits sum.splits)

lemma pass1_length:
  "pass1 lnd P ocs amt inc rest s = Returns (Inr s') \<Longrightarrow>
   length (fst s') \<le> length (fst s) + length rest"
proof (induction rest arbitrary: s)
  case Nil
  then show ?case by simp
next
  case (Cons channel rest)
  from Cons.prems obtain s1 where
    b: "pass1_body lnd P ocs amt inc channel s = Returns (Inr s1)" and
    r: "pass1 lnd P ocs amt inc rest s1 = Returns (Inr s')"
    by (auto split: outcome.splits sum.splits)
  from pass1_body_fst [OF b] have "length (fst s1) \<le> Suc (length (fst s))" by auto
  with Cons.IH [OF r] show ?case by simp
qed

text \<open>
  Claim C1, as the specification states it, fails: with a maximum of one hint and two
  public channels that each offer at least the requested 100,000, the first loop emits a
  hint for both and the call returns two hints. The first loop has no test on the number
  of hints.
\<close>

theorem SelectHopHints_exceeds_maxHints:
  "SelectHopHints (ex_lnd [ex_chanA, ex_chanC]) ex_ParsePubKey ex_maxCap 100000 1 None =
     Returns (Inr [[ex_hintA], [ex_hintC]])"
  by (simp add: ex_hop_defs hop_defs)

text \<open>
  Claim C1, amended. A list that \<open>SelectHopHints\<close> returns has at most
  \<open>max(maxHints, k)\<close> entries, where \<open>k\<close> is the number of hints the first loop emitted (one
  for each qualifying channel, with no limit on their number, so at most one per open
  channel). The second loop, whatever \<open>chanInfo\<close> it is given, never carries the list
  beyond \<open>maxHints\<close>: it returns the list as it stands once the accumulated bandwidth
  exceeds \<open>2 * amt\<close> (the \<^verbatim>\<open>int64\<close> product), once \<open>maxHints\<close> is reached, or once the
  channels are exhausted.
\<close>

theorem SelectHopHints_length_bound:
  "(ListChannels lnd = Inr openChannels \<and>
    SelectHopHints lnd P maxCap amt n inc = Returns (Inr hs) \<longrightarrow>
      (\<exists>hopHints chans bw.
         pass1 lnd P openChannels amt inc openChannels ([], {}, 0) =
           Returns (Inr (hopHints, chans, bw)) \<and>
         length hopHints \<le> length openChannels \<and>
         int (length hs) \<le> max n (int (length hopHints)))) \<and>
   (pass2 lnd P openChannels amt n chanInfo hopHintChans rest s = Returns hs2 \<longrightarrow>
      int (length hs2) \<le> max n (int (length (fst s)))) \<and>
   (sint (amt * 2) < sint (snd s) \<or> n \<le> int (length (fst s)) \<or> rest = [] \<longrightarrow>
      pass2 lnd P openChannels amt n chanInfo hopHintChans rest s = Returns (fst s))"
proof (intro conjI impI)
  assume a: "ListChannels lnd = Inr openChannels \<and>
    SelectHopHints lnd P maxCap amt n inc = Returns (Inr hs)"
  then obtain hopHints chans bw where
    p1: "pass1 lnd P openChannels amt inc openChannels ([], {}, 0) =
           Returns (Inr (hopHints, chans, bw))"
    by (auto simp: SelectHopHints_def split: if_splits outcome.splits sum.splits)
  from pass1_length [OF p1] have l1: "length hopHints \<le> length openChannels" by simp
  have "int (length hs) \<le> max n (int (length hopHints))"
  proof (cases "n \<le> int (length hopHints)")
    case True
    with a p1 show ?thesis
      by (auto simp: SelectHopHints_def split: if_splits)
  next
    case False
    with a p1 have
      "pass2 lnd P openChannels amt n None chans openChannels (hopHints, bw) = Returns hs"
      by (auto simp: SelectHopHints_def split: if_splits outcome.splits)
    from pass2_length [OF this] show ?thesis by simp
  qed
  with p1 l1 show "\<exists>hopHints chans bw.
         pass1 lnd P openChannels amt inc openChannels ([], {}, 0) =
           Returns (Inr (hopHints, chans, bw)) \<and>
         length hopHints \<le> length openChannels \<and>
         int (length hs) \<le> max n (int (length hopHints))"
    by blast
next
  assume "pass2 lnd P openChannels amt n chanInfo hopHintChans rest s = Returns hs2"
  then show "int (length hs2) \<le> max n (int (length (fst s)))" by (rule pass2_length)
next
  assume "sint (amt * 2) < sint (snd s) \<or> n \<le> int (length (fst s)) \<or> rest = []"
  then show "pass2 lnd P openChannels amt n chanInfo hopHintChans rest s = Returns (fst s)"
    by (rule pass2_stops)
qed

theorem SelectHopHints_length_bound_witness:
  "ListChannels (ex_lnd [ex_chanA, ex_chanB]) = Inr [ex_chanA, ex_chanB] \<and>
   SelectHopHints (ex_lnd [ex_chanA, ex_chanB]) ex_ParsePubKey ex_maxCap 100000 1 None =
     Returns (Inr [[ex_hintA]]) \<and>
   (\<exists>hopHints chans bw.
      pass1 (ex_lnd [ex_chanA, ex_chanB]) ex_ParsePubKey [ex_chanA, ex_chanB] 100000 None
        [ex_chanA, ex_chanB] ([], {}, 0) = Returns (Inr (hopHints, chans, bw)) \<and>
      length hopHints \<le> length [ex_chanA, ex_chanB] \<and>
      int (length [[ex_hintA]]) \<le> max 1 (int (length hopHints))) \<and>
   pass2 (ex_lnd [ex_chanA, ex_chanB]) ex_ParsePubKey [ex_chanA, ex_chanB] 100000 2
     (Some ex_edgeB) {''aa:0''} [ex_chanA, ex_chanB] ([[ex_hintA]], 150000) =
     Returns [[ex_hintA], [ex_hintA]] \<and>
   int (length [[ex_hintA], [ex_hintA]]) \<le> max 2 (int (length (fst ([[ex_hintA]], 150000 :: 64 word)))) \<and>
   sint ((100000 :: 64 word) * 2) < sint (snd ([[ex_hintA], [ex_hintA]], 300000 :: 64 word)) \<and>
   pass2 (ex_lnd [ex_chanA, ex_chanB]) ex_ParsePubKey [ex_chanA, ex_chanB] 100000 3
     (Some ex_edgeB) {''aa:0''} [ex_chanB] ([[ex_hintA], [ex_hintA]], 300000) =
     Returns [[ex_hintA], [ex_hintA]]"
proof -
  have h1: "ListChannels (ex_lnd [ex_chanA, ex_chanB]) = Inr [ex_chanA, ex_chanB]"
    by (simp add: ex_lnd_def)
  have h2: "SelectHopHints (ex_lnd [ex_chanA, ex_chanB]) ex_ParsePubKey ex_maxCap 100000 1 None =
     Returns (Inr [[ex_hintA]])"
    by (simp add: ex_hop_defs hop_defs)
  have h3: "pass2 (ex_lnd [ex_chanA, ex_chanB]) ex_ParsePubKey [ex_chanA, ex_chanB] 100000 2
     (Some ex_edgeB) {''aa:0''} [ex_chanA, ex_chanB] ([[ex_hintA]], 150000) =
     Returns [[ex_hintA], [ex_hintA]]"
    by (simp add: ex_hop_defs hop_defs)
  have h4: "sint ((100000 :: 64 word) * 2) <
    sint (snd ([[ex_hintA], [ex_hintA]], 300000 :: 64 word))"
    by simp
  note t1 = SelectHopHints_length_bound [where lnd = "ex_lnd [ex_chanA, ex_chanB]"
      and openChannels = "[ex_chanA, ex_chanB]" and P = ex_ParsePubKey and amt = 100000
      and n = 1 and inc = None and hs = "[[ex_hintA]]" and maxCap = ex_maxCap]
  note t2 = SelectHopHints_length_bound [where lnd = "ex_lnd [ex_chanA, ex_chanB]"
      and openChannels = "[ex_chanA, ex_chanB]" and P = ex_ParsePubKey and amt = 100000
      and n = 2 and chanInfo = "Some ex_edgeB" and hopHintChans = "{''aa:0''}"
      and rest = "[ex_chanA, ex_chanB]" and s = "([[ex_hintA]], 150000)"
      and ?hs2.0 = "[[ex_hintA], [ex_hintA]]"]
  note t3 = SelectHopHints_length_bound [where lnd = "ex_lnd [ex_chanA, ex_chanB]"
      and openChannels = "[ex_chanA, ex_chanB]" and P = ex_ParsePubKey and amt = 100000
      and n = 3 and chanInfo = "Some ex_edgeB" and hopHintChans = "{''aa:0''}"
      and rest = "[ex_chanB]" and s = "([[ex_hintA], [ex_hintA]], 300000)"]
  from t1 h1 h2 have c1: "\<exists>hopHints chans bw.
      pass1 (ex_lnd [ex_chanA, ex_chanB]) ex_ParsePubKey [ex_chanA, ex_chanB] 100000 None
        [ex_chanA, ex_chanB] ([], {}, 0) = Returns (Inr (hopHints, chans, bw)) \<and>
      length hopHints \<le> length [ex_chanA, ex_chanB] \<and>
      int (length [[ex_hintA]]) \<le> max 1 (int (length hopHints))"
    by blast
  from t2 h3 have c2: "int (length [[ex_hintA], [ex_hintA]]) \<le>
      max 2 (int (length (fst ([[ex_hintA]], 150000 :: 64 word))))"
    by blast
  from t3 h4 have c3: "pass2 (ex_lnd [ex_chanA, ex_chanB]) ex_ParsePubKey [ex_chanA, ex_chanB] 100000 3
     (Some ex_edgeB) {''aa:0''} [ex_chanB] ([[ex_hintA], [ex_hintA]], 300000) =
     Returns [[ex_hintA], [ex_hintA]]"
    by simp
  from h1 h2 h3 h4 c1 c2 c3 show ?thesis by blast
qed

section \<open>Hop hint selection: the second loop and the nil \<open>chanInfo\<close>\<close>

text \<open>
  Claim C2, as it is stated, fails when twice the amount does not fit an \<^verbatim>\<open>int64\<close>. With an
  amount of \<open>2 ^ 62\<close>, one open channel and room for five hints, the first loop selects
  nothing, the list of channels is not empty, and the accumulated bandwidth, 0, does not
  exceed twice the amount. But the code computes \<^verbatim>\<open>amtMSat*hopHintFactor\<close> in \<^verbatim>\<open>int64\<close>: the
  product wraps to the smallest \<^verbatim>\<open>int64\<close>, the break test of the second loop is true at
  once, and the call returns the empty list.
\<close>

theorem SelectHopHints_wrapped_product_returns:
  "ListChannels (ex_lnd [ex_chanA]) = Inr [ex_chanA] \<and>
   [ex_chanA] \<noteq> [] \<and>
   pass1 (ex_lnd [ex_chanA]) ex_ParsePubKey [ex_chanA] 4611686018427387904 None [ex_chanA]
     ([], {}, 0) = Returns (Inr ([], {}, 0)) \<and>
   int (length ([] :: Vertex HopHint list list)) < 5 \<and>
   sint (0 :: 64 word) \<le> 2 * sint (4611686018427387904 :: 64 word) \<and>
   sint ((4611686018427387904 :: 64 word) * 2) < sint (0 :: 64 word) \<and>
   SelectHopHints (ex_lnd [ex_chanA]) ex_ParsePubKey ex_maxCap 4611686018427387904 5 None =
     Returns (Inr [])"
  by (simp add: ex_hop_defs hop_defs)

text \<open>
  Claim C2, amended: the bandwidth is compared with the product the code computes. When
  the first loop ends with fewer than \<open>maxHints\<close> hints, the list of open channels is not
  empty, and the accumulated bandwidth does not exceed \<open>amtMSat * 2\<close> taken in \<^verbatim>\<open>int64\<close>
  with its wrap-around (the break test of the second loop is false on entry), the first
  iteration of the second loop reads \<open>chanInfo.ChannelPoint\<close> on the \<open>chanInfo\<close> of the
  function, which is still nil: the call panics and returns nothing.
\<close>

theorem SelectHopHints_pass2_panics:
  assumes "ListChannels lnd = Inr openChannels"
    and "openChannels \<noteq> []"
    and "pass1 lnd P openChannels amt inc openChannels ([], {}, 0) =
           Returns (Inr (hopHints, hopHintChans, totalHintBandwidth))"
    and "int (length hopHints) < numMaxHophints"
    and "\<not> sint (amt * 2) < sint totalHintBandwidth"
  shows "SelectHopHints lnd P maxCap amt numMaxHophints inc = Panics"
  using assms
    pass2_nil_chanInfo [of openChannels amt "(hopHints, totalHintBandwidth)" numMaxHophints
      lnd P openChannels hopHintChans]
  by (simp add: SelectHopHints_def)

theorem SelectHopHints_pass2_panics_witness:
  "ListChannels (ex_lnd [ex_chanA, ex_chanB]) = Inr [ex_chanA, ex_chanB] \<and>
   [ex_chanA, ex_chanB] \<noteq> [] \<and>
   pass1 (ex_lnd [ex_chanA, ex_chanB]) ex_ParsePubKey [ex_chanA, ex_chanB] 100000 None
     [ex_chanA, ex_chanB] ([], {}, 0) = Returns (Inr ([[ex_hintA]], {''aa:0''}, 150000)) \<and>
   int (length [[ex_hintA]]) < 2 \<and>
   \<not> sint ((100000 :: 64 word) * 2) < sint (150000 :: 64 word) \<and>
   SelectHopHints (ex_lnd [ex_chanA, ex_chanB]) ex_ParsePubKey ex_maxCap 100000 2 None = Panics"
proof -
  have h1: "ListChannels (ex_lnd [ex_chanA, ex_chanB]) = Inr [ex_chanA, ex_chanB]"
    by (simp add: ex_lnd_def)
  have h2: "[ex_chanA, ex_chanB] \<noteq> []" by simp
  have h3: "pass1 (ex_lnd [ex_chanA, ex_chanB]) ex_ParsePubKey [ex_chanA, ex_chanB] 100000
      None [ex_chanA, ex_chanB] ([], {}, 0) =
      Returns (Inr ([[ex_hintA]], {''aa:0''}, 150000))"
    by (simp add: ex_hop_defs hop_defs)
  have h4: "int (length [[ex_hintA]]) < 2" by simp
  have h5: "\<not> sint ((100000 :: 64 word) * 2) < sint (150000 :: 64 word)" by simp
  from SelectHopHints_pass2_panics [OF h1 h2 h3 h4 h5, where maxCap = ex_maxCap]
    h1 h2 h3 h4 h5
  show ?thesis by blast
qed

section \<open>Hop hint selection: the peer of a hint\<close>

lemma IsPublicNode_iff:
  "IsPublicNode channels pubKey \<longleftrightarrow>
   (\<forall>c\<in>set channels. PubKeyBytes c = pubKey \<longrightarrow> \<not> Private c)"
  by (induction channels) auto

lemma chanCanBeHopHint_public:
  "chanCanBeHopHint lnd channels channel ci = Returns (Some p, True) \<Longrightarrow>
   IsPublicNode channels (PubKeyBytes channel)"
  by (auto simp: chanCanBeHopHint_def split: if_splits outcome.splits prod.splits)

lemma hints_ok_snoc:
  "hints_ok P channels hs \<Longrightarrow> channel \<in> set channels \<Longrightarrow>
   IsPublicNode channels (PubKeyBytes channel) \<Longrightarrow> P (PubKeyBytes channel) = Inr nodeID \<Longrightarrow>
   hints_ok P channels (hs @ [[mkHopHint nodeID channel pol]])"
  by (auto simp: hints_ok_def mkHopHint_def)

lemma pass1_body_ok:
  assumes "pass1_body lnd P ocs amt inc channel s = Returns (Inr s')"
    and "channel \<in> set ocs" and "hints_ok P ocs (fst s)"
  shows "hints_ok P ocs (fst s')"
  using assms
  by (auto simp: pass1_body_def intro!: hints_ok_snoc dest: chanCanBeHopHint_public
      split: prod.splits option.splits if_splits outcome.splits sum.splits)

lemma pass1_ok:
  "pass1 lnd P ocs amt inc rest s = Returns (Inr s') \<Longrightarrow> set rest \<subseteq> set ocs \<Longrightarrow>
   hints_ok P ocs (fst s) \<Longrightarrow> hints_ok P ocs (fst s')"
proof (induction rest arbitrary: s)
  case Nil
  then show ?case by simp
next
  case (Cons channel rest)
  from Cons.prems(1) obtain s1 where
    b: "pass1_body lnd P ocs amt inc channel s = Returns (Inr s1)" and
    r: "pass1 lnd P ocs amt inc rest s1 = Returns (Inr s')"
    by (auto split: outcome.splits sum.splits)
  from Cons.prems have "channel \<in> set ocs" and sub: "set rest \<subseteq> set ocs" by auto
  with b Cons.prems(3) have "hints_ok P ocs (fst s1)" by (auto intro: pass1_body_ok)
  with Cons.IH [OF r sub] show ?case .
qed

lemma pass2_body_ok:
  assumes "pass2_body lnd P ocs ci hc channel s = Returns s'"
    and "channel \<in> set ocs" and "hints_ok P ocs (fst s)"
  shows "hints_ok P ocs (fst s')"
  using assms
  by (auto simp: pass2_body_def intro!: hints_ok_snoc dest: chanCanBeHopHint_public
      split: prod.splits option.splits if_splits outcome.splits sum.splits)

lemma pass2_ok:
  "pass2 lnd P ocs amt n ci hc rest s = Returns hs \<Longrightarrow> set rest \<subseteq> set ocs \<Longrightarrow>
   hints_ok P ocs (fst s) \<Longrightarrow> hints_ok P ocs hs"
proof (induction rest arbitrary: s)
  case Nil
  then show ?case by simp
next
  case (Cons channel rest)
  show ?case
  proof (cases "sint (amt * 2) < sint (snd s) \<or> n \<le> int (length (fst s))")
    case True
    with Cons.prems show ?thesis by auto
  next
    case False
    with Cons.prems(1) obtain s' where
      b: "pass2_body lnd P ocs ci hc channel s = Returns s'" and
      r: "pass2 lnd P ocs amt n ci hc rest s' = Returns hs"
      by (auto split: outcome.splits)
    from Cons.prems have "channel \<in> set ocs" and sub: "set rest \<subseteq> set ocs" by auto
    with b Cons.prems(3) have "hints_ok P ocs (fst s')" by (auto intro: pass2_body_ok)
    with Cons.IH [OF r sub] show ?thesis .
  qed
qed

lemma SelectHopHints_ok:
  assumes "SelectHopHints lnd P maxCap amt n inc = Returns (Inr hs)"
    and "ListChannels lnd = Inr openChannels"
  shows "hints_ok P openChannels hs"
proof -
  from assms obtain hopHints chans bw where
    p1: "pass1 lnd P openChannels amt inc openChannels ([], {}, 0) =
           Returns (Inr (hopHints, chans, bw))"
    by (auto simp: SelectHopHints_def split: if_splits outcome.splits sum.splits)
  have "hints_ok P openChannels (fst ([] :: 'a HopHint list list, {} :: string set, 0 :: 64 word))"
    by (simp add: hints_ok_def)
  with pass1_ok [OF p1] have ok1: "hints_ok P openChannels hopHints" by simp
  show ?thesis
  proof (cases "n \<le> int (length hopHints)")
    case True
    with assms p1 ok1 show ?thesis by (auto simp: SelectHopHints_def split: if_splits)
  next
    case False
    with assms p1 have
      "pass2 lnd P openChannels amt n None chans openChannels (hopHints, bw) = Returns hs"
      by (auto simp: SelectHopHints_def split: if_splits outcome.splits)
    from pass2_ok [OF this] ok1 show ?thesis by simp
  qed
qed

text \<open>
  Claim C3, as the specification states it, fails: the node has one channel, a public one,
  and the call returns a hint for it. The peer has no other channel with the node, public
  or not: the list without the hinted channel is empty.
\<close>

theorem SelectHopHints_single_channel_hint:
  "ListChannels (ex_lnd [ex_chanA]) = Inr [ex_chanA] \<and>
   SelectHopHints (ex_lnd [ex_chanA]) ex_ParsePubKey ex_maxCap 100000 1 None =
     Returns (Inr [[ex_hintA]]) \<and>
   HopChannelID ex_hintA = ChannelID ex_chanA \<and>
   remove1 ex_chanA [ex_chanA] = []"
  by (simp add: ex_hop_defs hop_defs)

text \<open>
  Claim C3, amended. Every hint that \<open>SelectHopHints\<close> returns names a channel of the
  node's list and carries the parsed key of its peer, and no channel of the list with that
  peer is private, the hinted channel included. \<open>IsPublicNode\<close> turns down a peer that has
  a private channel in the list; it does not ask for a second channel.
\<close>

theorem SelectHopHints_hint_peer_public:
  assumes "SelectHopHints lnd P maxCap amt n inc = Returns (Inr hs)"
    and "ListChannels lnd = Inr openChannels"
    and "hintGroup \<in> set hs" and "h \<in> set hintGroup"
  shows "\<exists>c\<in>set openChannels.
           ChannelID c = HopChannelID h \<and> P (PubKeyBytes c) = Inr (NodeID h) \<and>
           (\<forall>c'\<in>set openChannels. PubKeyBytes c' = PubKeyBytes c \<longrightarrow> \<not> Private c')"
  using SelectHopHints_ok [OF assms(1,2)] assms(3,4)
  unfolding hints_ok_def IsPublicNode_iff by blast

theorem SelectHopHints_hint_peer_public_witness:
  "SelectHopHints (ex_lnd [ex_chanA, ex_chanB]) ex_ParsePubKey ex_maxCap 100000 1 None =
     Returns (Inr [[ex_hintA]]) \<and>
   ListChannels (ex_lnd [ex_chanA, ex_chanB]) = Inr [ex_chanA, ex_chanB] \<and>
   [ex_hintA] \<in> set [[ex_hintA]] \<and> ex_hintA \<in> set [ex_hintA] \<and>
   (\<exists>c\<in>set [ex_chanA, ex_chanB].
      ChannelID c = HopChannelID ex_hintA \<and>
      ex_ParsePubKey (PubKeyBytes c) = Inr (NodeID ex_hintA) \<and>
      (\<forall>c'\<in>set [ex_chanA, ex_chanB]. PubKeyBytes c' = PubKeyBytes c \<longrightarrow> \<not> Private c'))"
proof -
  have h1: "SelectHopHints (ex_lnd [ex_chanA, ex_chanB]) ex_ParsePubKey ex_maxCap 100000 1 None =
     Returns (Inr [[ex_hintA]])"
    by (simp add: ex_hop_defs hop_defs)
  have h2: "ListChannels (ex_lnd [ex_chanA, ex_chanB]) = Inr [ex_chanA, ex_chanB]"
    by (simp add: ex_lnd_def)
  have h3: "[ex_hintA] \<in> set [[ex_hintA]]" by simp
  have h4: "ex_hintA \<in> set [ex_hintA]" by simp
  from SelectHopHints_hint_peer_public [OF h1 h2 h3 h4] h1 h2 h3 h4 show ?thesis by blast
qed

section \<open>Hop hint selection: the policy of a hint\<close>

text \<open>
  Claim C9 on the code. The peer of channel 1 is the first node of the edge, so
  \<open>chanCanBeHopHint\<close> gives the first node's policy as the remote one (base fee 1000,
  rate 1, delta 40). The hint that is returned carries the second node's policy, the
  node's own (base fee 2000, rate 5, delta 144): both loops read \<open>Node2Policy\<close> and use
  the policy that \<open>chanCanBeHopHint\<close> gives only for the nil test.
\<close>

theorem SelectHopHints_hint_uses_Node2Policy:
  "Node1 ex_edgeA = PubKeyBytes ex_chanA \<and>
   chanCanBeHopHint (ex_lnd [ex_chanA]) [ex_chanA] ex_chanA (Some ex_edgeA) =
     Returns (Node1Policy ex_edgeA, True) \<and>
   Node1Policy ex_edgeA = Some ex_polNode1 \<and>
   SelectHopHints (ex_lnd [ex_chanA]) ex_ParsePubKey ex_maxCap 70000 5 None =
     Returns (Inr [[mkHopHint ex_keyA ex_chanA ex_polNode2]]) \<and>
   mkHopHint ex_keyA ex_chanA ex_polNode2 \<noteq> mkHopHint ex_keyA ex_chanA ex_polNode1"
  by (simp add: ex_hop_defs hop_defs)

section \<open>Hop hint selection: a key that does not parse\<close>

text \<open>
  Claim C10 on the code. The key of peer B does not parse. With an amount of 50,000
  channel B comes up in the first loop, and the call returns the parser's error and no
  hint list, as the claim says. With an amount of 100,000 channel B offers too little for
  the first loop, which collects the hint of channel A; the second loop then starts at
  channel B, with fewer hints than the two asked for and a bandwidth of 150,000 that does
  not exceed 200,000. The claim has the channel skipped and the hint of channel A
  returned without error. The code never gets to the key: the iteration for channel B
  reads \<open>chanInfo.ChannelPoint\<close> on the nil \<open>chanInfo\<close> of the function and panics.
\<close>

theorem SelectHopHints_key_failure_pass2_panics:
  "ex_ParsePubKey (PubKeyBytes ex_chanB) = Inl (ErrUpstream ''invalid key'') \<and>
   SelectHopHints (ex_lnd [ex_chanB, ex_chanA]) ex_ParsePubKey ex_maxCap 50000 2 None =
     Returns (Inl (ErrUpstream ''invalid key'')) \<and>
   pass1 (ex_lnd [ex_chanB, ex_chanA]) ex_ParsePubKey [ex_chanB, ex_chanA] 100000 None
     [ex_chanB, ex_chanA] ([], {}, 0) = Returns (Inr ([[ex_hintA]], {''aa:0''}, 150000)) \<and>
   \<not> sint ((100000 :: 64 word) * 2) < sint (150000 :: 64 word) \<and>
   SelectHopHints (ex_lnd [ex_chanB, ex_chanA]) ex_ParsePubKey ex_maxCap 100000 2 None =
     Panics"
  by (simp add: ex_hop_defs hop_defs)

section \<open>Liquidity manager: rejected parameters\<close>

lemma validate_rules_rejects:
  "\<exists>(channel, rule)\<in>set entries. ToUint64 channel = 0 \<or> rule_validate (rule_at st rule) \<noteq> None \<Longrightarrow>
   validate_rules rule_validate st entries \<noteq> None"
proof (induction entries)
  case Nil
  then show ?case by simp
next
  case (Cons e entries)
  obtain channel rule where e: "e = (channel, rule)" by (cases e)
  show ?case
  proof (cases "ToUint64 channel = 0 \<or> rule_validate (rule_at st rule) \<noteq> None")
    case True
    then show ?thesis by (auto simp: e)
  next
    case False
    with Cons.prems e have "\<exists>(channel, rule)\<in>set entries.
      ToUint64 channel = 0 \<or> rule_validate (rule_at st rule) \<noteq> None"
      by auto
    from Cons.IH [OF this] False show ?thesis by (auto simp: e)
  qed
qed

lemma validate_rejects:
  assumes "(\<exists>(channel, rule)\<in>set (rules_of st (ChannelRules p)).
              ToUint64 channel = 0 \<or> rule_validate (rule_at st rule) \<noteq> None) \<or>
           sint (SweepFeeRateLimit p) < sint floor \<or>
           sint (SweepConfTarget p) < sint minConfs"
  shows "validate rule_validate floor st p minConfs \<noteq> None"
proof (cases "validate_rules rule_validate st (rules_of st (ChannelRules p))")
  case None
  with validate_rules_rejects [of "rules_of st (ChannelRules p)" rule_validate st] assms
  show ?thesis by (auto simp: validate_def)
next
  case (Some err)
  then show ?thesis by (simp add: validate_def)
qed

text \<open>
  Claim C4. When the map of \<open>p\<close> has an entry with a zero channel id or with a rule
  that its own check rejects, or the fee limit of \<open>p\<close> is below the fee floor, or its
  confirmation target is below the configured minimum, \<open>SetParameters\<close> returns an error.
  Whenever \<open>SetParameters\<close> returns an error, the manager and the memory are what they
  were before the call.
\<close>

theorem SetParameters_rejects:
  "((\<exists>(channel, rule)\<in>set (rules_of st (ChannelRules p)).
       ToUint64 channel = 0 \<or> rule_validate (rule_at st rule) \<noteq> None) \<or>
    sint (SweepFeeRateLimit p) < sint AbsoluteFeePerKwFloor \<or>
    sint (SweepConfTarget p) < sint (MinimumConfirmations (cfg m)) \<longrightarrow>
      (\<exists>err. SetParameters rule_validate AbsoluteFeePerKwFloor m st p =
               Returns (Some err, m, st))) \<and>
   (SetParameters rule_validate AbsoluteFeePerKwFloor m st p = Returns (Some err, m', st') \<longrightarrow>
      m' = m \<and> st' = st)"
proof (intro conjI impI)
  assume "(\<exists>(channel, rule)\<in>set (rules_of st (ChannelRules p)).
       ToUint64 channel = 0 \<or> rule_validate (rule_at st rule) \<noteq> None) \<or>
    sint (SweepFeeRateLimit p) < sint AbsoluteFeePerKwFloor \<or>
    sint (SweepConfTarget p) < sint (MinimumConfirmations (cfg m))"
  from validate_rejects [OF this] obtain err where
    "validate rule_validate AbsoluteFeePerKwFloor st p (MinimumConfirmations (cfg m)) = Some err"
    by auto
  then show "\<exists>err. SetParameters rule_validate AbsoluteFeePerKwFloor m st p =
               Returns (Some err, m, st)"
    by (simp add: SetParameters_def)
next
  assume a: "SetParameters rule_validate AbsoluteFeePerKwFloor m st p =
    Returns (Some err, m', st')"
  then show "m' = m" by (auto simp: SetParameters_def split: option.splits outcome.splits)
  from a show "st' = st" by (auto simp: SetParameters_def split: option.splits outcome.splits)
qed

theorem SetParameters_rejects_witness:
  "(\<exists>(channel, rule)\<in>set (rules_of ex_store (ChannelRules (ex_params 86400000000000 750 6 (Some 1)))).
      ToUint64 channel = 0 \<or> ex_rule_validate (rule_at ex_store rule) \<noteq> None) \<and>
   SetParameters ex_rule_validate 250 (ex_mgr (ex_params 86400000000000 750 6 (Some 0)) [] [])
     ex_store (ex_params 86400000000000 750 6 (Some 1)) =
     Returns (Some ErrZeroChannelID, ex_mgr (ex_params 86400000000000 750 6 (Some 0)) [] [],
              ex_store) \<and>
   (\<exists>err. SetParameters ex_rule_validate 250
            (ex_mgr (ex_params 86400000000000 750 6 (Some 0)) [] []) ex_store
            (ex_params 86400000000000 750 6 (Some 2)) =
          Returns (Some err, ex_mgr (ex_params 86400000000000 750 6 (Some 0)) [] [], ex_store)) \<and>
   sint (SweepFeeRateLimit (ex_params 86400000000000 100 6 (Some 0))) < sint (250 :: 64 word) \<and>
   (\<exists>err. SetParameters ex_rule_validate 250
            (ex_mgr (ex_params 86400000000000 750 6 (Some 0)) [] []) ex_store
            (ex_params 86400000000000 100 6 (Some 0)) =
          Returns (Some err, ex_mgr (ex_params 86400000000000 750 6 (Some 0)) [] [], ex_store)) \<and>
   sint (SweepConfTarget (ex_params 86400000000000 750 2 (Some 0))) <
     sint (MinimumConfirmations (cfg (ex_mgr (ex_params 86400000000000 750 6 (Some 0)) [] []))) \<and>
   (\<exists>err. SetParameters ex_rule_validate 250
            (ex_mgr (ex_params 86400000000000 750 6 (Some 0)) [] []) ex_store
            (ex_params 86400000000000 750 2 (Some 0)) =
          Returns (Some err, ex_mgr (ex_params 86400000000000 750 6 (Some 0)) [] [], ex_store))"
proof -
  let ?m = "ex_mgr (ex_params 86400000000000 750 6 (Some 0)) [] []"
  have z: "\<exists>(channel, rule)\<in>set (rules_of ex_store
      (ChannelRules (ex_params 86400000000000 750 6 (Some 1)))).
      ToUint64 channel = 0 \<or> ex_rule_validate (rule_at ex_store rule) \<noteq> None"
    by (simp add: ex_liq_defs liq_defs)
  have r: "\<exists>(channel, rule)\<in>set (rules_of ex_store
      (ChannelRules (ex_params 86400000000000 750 6 (Some 2)))).
      ToUint64 channel = 0 \<or> ex_rule_validate (rule_at ex_store rule) \<noteq> None"
    by (simp add: ex_liq_defs liq_defs)
  have f: "sint (SweepFeeRateLimit (ex_params 86400000000000 100 6 (Some 0))) <
      sint (250 :: 64 word)"
    by (simp add: ex_params_def)
  have c: "sint (SweepConfTarget (ex_params 86400000000000 750 2 (Some 0))) <
      sint (MinimumConfirmations (cfg ?m))"
    by (simp add: ex_params_def ex_mgr_def)
  have e: "SetParameters ex_rule_validate 250 ?m ex_store
      (ex_params 86400000000000 750 6 (Some 1)) = Returns (Some ErrZeroChannelID, ?m, ex_store)"
    by (simp add: ex_liq_defs liq_defs)
  note t = SetParameters_rejects [where rule_validate = ex_rule_validate
      and AbsoluteFeePerKwFloor = 250 and m = ?m and st = ex_store]
  from t [where p = "ex_params 86400000000000 750 6 (Some 1)" and err = ErrZeroChannelID
      and m' = ?m and st' = ex_store] z e
  have c0: "?m = ?m \<and> ex_store = ex_store" by blast
  from t [where p = "ex_params 86400000000000 750 6 (Some 2)"] r
  have c1: "\<exists>err. SetParameters ex_rule_validate 250 ?m ex_store
      (ex_params 86400000000000 750 6 (Some 2)) = Returns (Some err, ?m, ex_store)"
    by blast
  from t [where p = "ex_params 86400000000000 100 6 (Some 0)"] f
  have c2: "\<exists>err. SetParameters ex_rule_validate 250 ?m ex_store
      (ex_params 86400000000000 100 6 (Some 0)) = Returns (Some err, ?m, ex_store)"
    by blast
  from t [where p = "ex_params 86400000000000 750 2 (Some 0)"] c
  have c3: "\<exists>err. SetParameters ex_rule_validate 250 ?m ex_store
      (ex_params 86400000000000 750 2 (Some 0)) = Returns (Some err, ?m, ex_store)"
    by blast
  from z e c0 c1 f c2 c c3 show ?thesis by blast
qed

section \<open>Liquidity manager: the fee check\<close>

text \<open>
  Claim C5. When the fee estimate for the confirmation target comes back and exceeds the
  fee limit, \<open>SuggestSwaps\<close> returns the empty list and no error.
\<close>

theorem SuggestSwaps_fee_above_limit:
  assumes "EstimateFee (Lnd (cfg m)) (SweepConfTarget (params m)) = Inr estimate"
    and "sint (SweepFeeRateLimit (params m)) < sint estimate"
  shows "SuggestSwaps Type StateFailOffchainPayments newBalances suggestSwap m st = Inr []"
  using assms by (simp add: SuggestSwaps_def)

theorem SuggestSwaps_fee_above_limit_witness:
  "EstimateFee (Lnd (cfg (ex_mgr (ex_params 86400000000000 200 6 (Some 0)) [] [])))
     (SweepConfTarget (params (ex_mgr (ex_params 86400000000000 200 6 (Some 0)) [] []))) =
     Inr 253 \<and>
   sint (SweepFeeRateLimit (params (ex_mgr (ex_params 86400000000000 200 6 (Some 0)) [] []))) <
     sint (253 :: 64 word) \<and>
   SuggestSwaps ex_Type ExFailOffchainPayments ex_newBalances ex_suggestSwap
     (ex_mgr (ex_params 86400000000000 200 6 (Some 0)) [] []) ex_store = Inr []"
proof -
  let ?m = "ex_mgr (ex_params 86400000000000 200 6 (Some 0)) [] []"
  have h1: "EstimateFee (Lnd (cfg ?m)) (SweepConfTarget (params ?m)) = Inr 253"
    by (simp add: ex_mgr_def ex_lnd_def)
  have h2: "sint (SweepFeeRateLimit (params ?m)) < sint (253 :: 64 word)"
    by (simp add: ex_mgr_def ex_params_def)
  from SuggestSwaps_fee_above_limit [OF h1 h2, of ex_Type ExFailOffchainPayments
      ex_newBalances ex_suggestSwap ex_store] h1 h2
  show ?thesis by blast
qed

section \<open>Liquidity manager: the swaps in flight\<close>

lemma sint_neg64:
  fixes b :: "64 word"
  assumes "sint b \<noteq> - (2 ^ 63)"
  shows "sint (- b) = - sint b"
proof -
  have "- (2 ^ 63) \<le> sint b" and "sint b < 2 ^ 63"
    using sint_ge [of b] sint_lt [of b] by simp_all
  with assms have "- (2 ^ 63) \<le> - sint b" and "- sint b < 2 ^ 63" by simp_all
  then have "signed_take_bit 63 (- sint b) = - sint b"
    by (simp add: signed_take_bit_int_eq_self)
  then show ?thesis by (simp add: sint_word_minus)
qed

lemma fold_insert_set:
  "fold (\<lambda>id e. insert (N id) e) xs e0 = e0 \<union> N ` set xs"
  by (induction xs arbitrary: e0) auto

lemma fold_upd_dom:
  "dom (fold (\<lambda>id f. f(N id \<mapsto> t)) xs f0) = dom f0 \<union> N ` set xs"
  by (induction xs arbitrary: f0) auto

lemma scanLoopOut_None_iff:
  "scanLoopOut Type fo cutoff loopOut s = None \<longleftrightarrow>
   (\<exists>out\<in>set loopOut. Type (OutState out) = StateTypePending \<and> OutgoingChanSet out = [])"
  by (induction loopOut arbitrary: s) (auto simp: Let_def)

lemma scanLoopOut_existing:
  "scanLoopOut Type fo cutoff loopOut s = Some s' \<Longrightarrow>
   fst s' = fst s \<union>
     (\<Union>out\<in>{out \<in> set loopOut. Type (OutState out) = StateTypePending}.
        NewShortChanIDFromInt ` set (OutgoingChanSet out))"
proof (induction loopOut arbitrary: s)
  case Nil
  then show ?case by simp
next
  case (Cons out rest)
  show ?case
  proof (cases "Type (OutState out) = StateTypePending")
    case True
    with Cons.prems obtain f where
      "scanLoopOut Type fo cutoff rest
         (fold (\<lambda>id e. insert (NewShortChanIDFromInt id) e) (OutgoingChanSet out) (fst s), f) =
       Some s'"
      by (auto simp: Let_def split: if_splits)
    from Cons.IH [OF this] True show ?thesis by (auto simp: fold_insert_set)
  next
    case False
    with Cons.prems obtain f where "scanLoopOut Type fo cutoff rest (fst s, f) = Some s'"
      by (cases s) (auto simp: Let_def split: if_splits)
    from Cons.IH [OF this] False show ?thesis by auto
  qed
qed

lemma scanLoopOut_failed:
  "scanLoopOut Type fo cutoff loopOut s = Some s' \<Longrightarrow>
   dom (snd s') = dom (snd s) \<union>
     (\<Union>out\<in>{out \<in> set loopOut. OutState out = fo \<and> cutoff < OutLastUpdate out}.
        NewShortChanIDFromInt ` set (OutgoingChanSet out))"
proof (induction loopOut arbitrary: s)
  case Nil
  then show ?case by simp
next
  case (Cons out rest)
  show ?case
  proof (cases "OutState out = fo \<and> cutoff < OutLastUpdate out")
    case True
    with Cons.prems obtain e where
      "scanLoopOut Type fo cutoff rest
         (e, fold (\<lambda>id f. f(NewShortChanIDFromInt id \<mapsto> OutLastUpdate out))
               (OutgoingChanSet out) (snd s)) = Some s'"
      by (auto simp: Let_def split: if_splits)
    from Cons.IH [OF this] True show ?thesis by (auto simp: fold_upd_dom)
  next
    case False
    with Cons.prems obtain e where "scanLoopOut Type fo cutoff rest (e, snd s) = Some s'"
      by (cases s) (auto simp: Let_def split: if_splits)
    from Cons.IH [OF this] False show ?thesis by auto
  qed
qed

lemma scanLoopIn_None_iff:
  "scanLoopIn Type loopIn s = None \<longleftrightarrow>
   (\<exists>swapIn\<in>set loopIn. Type (InState swapIn) = StateTypePending \<and> LastHop swapIn = None)"
  by (induction loopIn arbitrary: s) (auto split: option.splits)

lemma scanLoopIn_existing:
  "scanLoopIn Type loopIn s = Some s' \<Longrightarrow>
   s' = s \<union> {k. \<exists>swapIn\<in>set loopIn. Type (InState swapIn) = StateTypePending \<and>
                  LastHop swapIn = Some k}"
proof (induction loopIn arbitrary: s)
  case Nil
  then show ?case by simp
next
  case (Cons swapIn rest)
  show ?case
  proof (cases "Type (InState swapIn) = StateTypePending")
    case True
    with Cons.prems obtain lastHop where
      l: "LastHop swapIn = Some lastHop" and
      "scanLoopIn Type rest (insert lastHop s) = Some s'"
      by (auto split: option.splits)
    from Cons.IH [OF this(2)] True l show ?thesis by auto
  next
    case False
    with Cons.prems have "scanLoopIn Type rest s = Some s'" by simp
    from Cons.IH [OF this] False show ?thesis by auto
  qed
qed

lemma getEligibleChannels_unrestricted:
  assumes "(\<exists>out\<in>set loopOut. Type (OutState out) = StateTypePending \<and> OutgoingChanSet out = []) \<or>
     (\<exists>swapIn\<in>set loopIn. Type (InState swapIn) = StateTypePending \<and> LastHop swapIn = None)"
  shows "getEligibleChannels Type fo m loopOut loopIn = Inr []"
  using assms
proof
  assume "\<exists>out\<in>set loopOut. Type (OutState out) = StateTypePending \<and> OutgoingChanSet out = []"
  then have "scanLoopOut Type fo
      (Clock_Now (cfg m) + sint (FailureBackOff (params m) * (- 1))) loopOut ({}, Map.empty) = None"
    by (simp only: scanLoopOut_None_iff)
  then show ?thesis
    by (simp add: getEligibleChannels_def Let_def)
next
  assume "\<exists>swapIn\<in>set loopIn. Type (InState swapIn) = StateTypePending \<and> LastHop swapIn = None"
  then have "scanLoopIn Type loopIn {} = None"
    by (simp only: scanLoopIn_None_iff)
  then show ?thesis
    by (simp add: getEligibleChannels_def Let_def split: option.splits)
qed

text \<open>
  Claim C6. When the fee estimate, the restrictions and the two swap lists come back, and
  a pending loop out has an empty channel set or a pending loop in has no last hop,
  \<open>SuggestSwaps\<close> returns the empty list and no error, whatever the rules are. In the
  example the same manager suggests a swap once the unrestricted loop out is gone.
\<close>

theorem SuggestSwaps_unrestricted_swap:
  assumes "EstimateFee (Lnd (cfg m)) (SweepConfTarget (params m)) = Inr estimate"
    and "LoopOutRestrictions (cfg m) = Inr outRestrictions"
    and "ListLoopOut (cfg m) = Inr loopOut"
    and "ListLoopIn (cfg m) = Inr loopIn"
    and "(\<exists>out\<in>set loopOut. Type (OutState out) = StateTypePending \<and> OutgoingChanSet out = []) \<or>
         (\<exists>swapIn\<in>set loopIn. Type (InState swapIn) = StateTypePending \<and> LastHop swapIn = None)"
  shows "SuggestSwaps Type StateFailOffchainPayments newBalances suggestSwap m st = Inr []"
  using assms(1-4)
    getEligibleChannels_unrestricted [OF assms(5), of StateFailOffchainPayments m]
  by (simp add: SuggestSwaps_def)

theorem SuggestSwaps_unrestricted_swap_witness:
  "EstimateFee (Lnd (cfg (ex_mgr (ex_params 86400000000000 750 6 (Some 0))
       [ex_unrestrictedOut] [])))
     (SweepConfTarget (params (ex_mgr (ex_params 86400000000000 750 6 (Some 0))
       [ex_unrestrictedOut] []))) = Inr 253 \<and>
   LoopOutRestrictions (cfg (ex_mgr (ex_params 86400000000000 750 6 (Some 0))
       [ex_unrestrictedOut] [])) = Inr (250000, 2000000) \<and>
   ListLoopOut (cfg (ex_mgr (ex_params 86400000000000 750 6 (Some 0))
       [ex_unrestrictedOut] [])) = Inr [ex_unrestrictedOut] \<and>
   ListLoopIn (cfg (ex_mgr (ex_params 86400000000000 750 6 (Some 0))
       [ex_unrestrictedOut] [])) = Inr [] \<and>
   ex_Type (OutState ex_unrestrictedOut) = StateTypePending \<and>
   OutgoingChanSet ex_unrestrictedOut = [] \<and>
   SuggestSwaps ex_Type ExFailOffchainPayments ex_newBalances ex_suggestSwap
     (ex_mgr (ex_params 86400000000000 750 6 (Some 0)) [ex_unrestrictedOut] []) ex_store =
     Inr [] \<and>
   SuggestSwaps ex_Type ExFailOffchainPayments ex_newBalances ex_suggestSwap
     (ex_mgr (ex_params 86400000000000 750 6 (Some 0)) [] []) ex_store =
     Inr [\<lparr> ReqAmount = 250000, ReqOutgoingChanSet = [1], MaxPrepayRoutingFee = 150,
            MaxSwapRoutingFee = 2500, MaxMinerFee = 15000, MaxSwapFee = 1250,
            MaxPrepayAmount = 30000, ReqSweepConfTarget = 6 \<rparr>]"
proof -
  let ?m = "ex_mgr (ex_params 86400000000000 750 6 (Some 0)) [ex_unrestrictedOut] []"
  have h1: "EstimateFee (Lnd (cfg ?m)) (SweepConfTarget (params ?m)) = Inr 253"
    by (simp add: ex_mgr_def ex_lnd_def)
  have h2: "LoopOutRestrictions (cfg ?m) = Inr (250000, 2000000)" by (simp add: ex_mgr_def)
  have h3: "ListLoopOut (cfg ?m) = Inr [ex_unrestrictedOut]" by (simp add: ex_mgr_def)
  have h4: "ListLoopIn (cfg ?m) = Inr []" by (simp add: ex_mgr_def)
  have p: "ex_Type (OutState ex_unrestrictedOut) = StateTypePending"
    by (simp add: ex_unrestrictedOut_def)
  have u: "OutgoingChanSet ex_unrestrictedOut = []" by (simp add: ex_unrestrictedOut_def)
  from p u have h5:
    "(\<exists>out\<in>set [ex_unrestrictedOut].
        ex_Type (OutState out) = StateTypePending \<and> OutgoingChanSet out = []) \<or>
     (\<exists>swapIn\<in>set ([] :: ex_SwapState LoopIn list).
        ex_Type (InState swapIn) = StateTypePending \<and> LastHop swapIn = None)"
    by simp
  have other: "SuggestSwaps ex_Type ExFailOffchainPayments ex_newBalances ex_suggestSwap
     (ex_mgr (ex_params 86400000000000 750 6 (Some 0)) [] []) ex_store =
     Inr [\<lparr> ReqAmount = 250000, ReqOutgoingChanSet = [1], MaxPrepayRoutingFee = 150,
            MaxSwapRoutingFee = 2500, MaxMinerFee = 15000, MaxSwapFee = 1250,
            MaxPrepayAmount = 30000, ReqSweepConfTarget = 6 \<rparr>]"
    by (simp add: ex_liq_defs liq_defs Let_def defaultMaximumPrepay_def
        defaultPrepayRoutingFeePPM_def defaultRoutingFeePPM_def defaultSwapFeePPM_def
        defaultMaximumMinerFee_def)
  from SuggestSwaps_unrestricted_swap [OF h1 h2 h3 h4 h5, of ExFailOffchainPayments
      ex_newBalances ex_suggestSwap ex_store] h1 h2 h3 h4 p u other
  show ?thesis by blast
qed

section \<open>Liquidity manager: the failure backoff\<close>

lemma getEligibleChannels_Inr:
  assumes "getEligibleChannels Type fo m loopOut loopIn = Inr eligible"
    and "channel \<in> set eligible"
  shows "\<not> (\<exists>out\<in>set loopOut. OutState out = fo \<and>
             Clock_Now (cfg m) + sint (- FailureBackOff (params m)) < OutLastUpdate out \<and>
             ChannelID channel \<in> set (OutgoingChanSet out))"
proof -
  let ?cutoff = "Clock_Now (cfg m) + sint (- FailureBackOff (params m))"
  from assms obtain existingOut failedOut existingIn channels where
    so: "scanLoopOut Type fo ?cutoff loopOut ({}, Map.empty) = Some (existingOut, failedOut)" and
    el: "eligible = filter (channelEligible existingOut existingIn failedOut) channels"
    by (auto simp: getEligibleChannels_def Let_def split: option.splits sum.splits)
  from el assms(2) have "NewShortChanIDFromInt (ChannelID channel) \<notin> dom failedOut"
    by (auto simp: channelEligible_def Let_def split: if_splits)
  with scanLoopOut_failed [OF so] show ?thesis by auto
qed

lemma getEligibleChannels_keeps:
  assumes lc: "ListChannels (Lnd (cfg m)) = Inr channels" and ch: "channel \<in> set channels"
    and nofail: "\<forall>out\<in>set loopOut. OutState out = fo \<and>
        ChannelID channel \<in> set (OutgoingChanSet out) \<longrightarrow>
        \<not> Clock_Now (cfg m) + sint (- FailureBackOff (params m)) < OutLastUpdate out"
    and noout: "\<forall>out\<in>set loopOut. Type (OutState out) = StateTypePending \<longrightarrow>
        OutgoingChanSet out \<noteq> [] \<and> ChannelID channel \<notin> set (OutgoingChanSet out)"
    and noin: "\<forall>swapIn\<in>set loopIn. Type (InState swapIn) = StateTypePending \<longrightarrow>
        LastHop swapIn \<noteq> None \<and> LastHop swapIn \<noteq> Some (PubKeyBytes channel)"
  shows "\<exists>eligible. getEligibleChannels Type fo m loopOut loopIn = Inr eligible \<and>
           channel \<in> set eligible"
proof -
  let ?cutoff = "Clock_Now (cfg m) + sint (- FailureBackOff (params m))"
  let ?k = "NewShortChanIDFromInt (ChannelID channel)"
  from noout have "scanLoopOut Type fo ?cutoff loopOut ({}, Map.empty) \<noteq> None"
    by (auto simp: scanLoopOut_None_iff)
  then obtain existingOut failedOut where
    so: "scanLoopOut Type fo ?cutoff loopOut ({}, Map.empty) = Some (existingOut, failedOut)"
    by auto
  from noin have "scanLoopIn Type loopIn {} \<noteq> None"
    by (auto simp: scanLoopIn_None_iff)
  then obtain existingIn where si: "scanLoopIn Type loopIn {} = Some existingIn" by auto
  from scanLoopOut_failed [OF so] nofail have "?k \<notin> dom failedOut"
    by (auto simp: NewShortChanIDFromInt_def)
  then have f: "failedOut ?k = None" by auto
  from scanLoopOut_existing [OF so] noout have e: "?k \<notin> existingOut"
    by (auto simp: NewShortChanIDFromInt_def)
  from scanLoopIn_existing [OF si] noin
  have i: "PubKeyBytes channel \<notin> existingIn" by auto
  from f e i have "channelEligible existingOut existingIn failedOut channel"
    by (simp add: channelEligible_def)
  with so si lc ch show ?thesis
    by (simp add: getEligibleChannels_def)
qed

text \<open>
  Claim C7, as the specification states it, fails for one value of \<open>FailureBackOff\<close>:
  the smallest \<^verbatim>\<open>int64\<close>. The code computes \<^verbatim>\<open>FailureBackOff * -1\<close>, which wraps to the same
  value, so the cutoff lies 292 years in the past and every failure comes after it. In
  the example the only swap failed one hour ago on channel 1, \<open>now \<ge> T + FailureBackOff\<close>
  holds, and channel 1 is still left out.
\<close>

theorem getEligibleChannels_min_backoff:
  "sint (FailureBackOff (params (ex_mgr (ex_params 9223372036854775808 750 6 (Some 0)) [] []))) =
     - (2 ^ 63) \<and>
   OutLastUpdate (ex_failedOut 1603996400000000000) +
     sint (FailureBackOff (params (ex_mgr (ex_params 9223372036854775808 750 6 (Some 0)) [] [])))
     \<le> Clock_Now (cfg (ex_mgr (ex_params 9223372036854775808 750 6 (Some 0)) [] [])) \<and>
   ListChannels (Lnd (cfg (ex_mgr (ex_params 9223372036854775808 750 6 (Some 0)) [] []))) =
     Inr [ex_chanA, ex_chanB] \<and>
   OutState (ex_failedOut 1603996400000000000) = ExFailOffchainPayments \<and>
   OutgoingChanSet (ex_failedOut 1603996400000000000) = [ChannelID ex_chanA] \<and>
   getEligibleChannels ex_Type ExFailOffchainPayments
     (ex_mgr (ex_params 9223372036854775808 750 6 (Some 0)) [] [])
     [ex_failedOut 1603996400000000000] [] = Inr [ex_chanB]"
  by (simp add: ex_liq_defs liq_defs Let_def)

text \<open>
  Claim C7, amended: for every \<open>FailureBackOff\<close> but the smallest \<^verbatim>\<open>int64\<close>. A loop out in
  the state \<open>StateFailOffchainPayments\<close> with last update \<open>T\<close> keeps every channel of its
  channel set out of the eligible list while \<open>now < T + FailureBackOff\<close>. A listed channel is
  eligible when \<open>now \<ge> T + FailureBackOff\<close> holds for every such swap that names it and
  nothing else excludes it: no pending loop out is unrestricted or names it, and no
  pending loop in is unrestricted or has its peer as last hop.
\<close>

theorem getEligibleChannels_backoff:
  assumes "sint (FailureBackOff (params m)) \<noteq> - (2 ^ 63)"
  shows
  "(out \<in> set loopOut \<and> OutState out = StateFailOffchainPayments \<and>
    chanID \<in> set (OutgoingChanSet out) \<and>
    Clock_Now (cfg m) < OutLastUpdate out + sint (FailureBackOff (params m)) \<and>
    getEligibleChannels Type StateFailOffchainPayments m loopOut loopIn = Inr eligible \<longrightarrow>
      (\<forall>channel\<in>set eligible. ChannelID channel \<noteq> chanID)) \<and>
   (ListChannels (Lnd (cfg m)) = Inr channels \<and> channel \<in> set channels \<and>
    (\<forall>out\<in>set loopOut. OutState out = StateFailOffchainPayments \<and>
        ChannelID channel \<in> set (OutgoingChanSet out) \<longrightarrow>
        OutLastUpdate out + sint (FailureBackOff (params m)) \<le> Clock_Now (cfg m)) \<and>
    (\<forall>out\<in>set loopOut. Type (OutState out) = StateTypePending \<longrightarrow>
        OutgoingChanSet out \<noteq> [] \<and> ChannelID channel \<notin> set (OutgoingChanSet out)) \<and>
    (\<forall>swapIn\<in>set loopIn. Type (InState swapIn) = StateTypePending \<longrightarrow>
        LastHop swapIn \<noteq> None \<and> LastHop swapIn \<noteq> Some (PubKeyBytes channel)) \<longrightarrow>
      (\<exists>eligible. getEligibleChannels Type StateFailOffchainPayments m loopOut loopIn =
                    Inr eligible \<and> channel \<in> set eligible))"
proof -
  have neg: "sint (- FailureBackOff (params m)) = - sint (FailureBackOff (params m))"
    using assms by (rule sint_neg64)
  show ?thesis
  proof (intro conjI impI)
    assume a: "out \<in> set loopOut \<and> OutState out = StateFailOffchainPayments \<and>
      chanID \<in> set (OutgoingChanSet out) \<and>
      Clock_Now (cfg m) < OutLastUpdate out + sint (FailureBackOff (params m)) \<and>
      getEligibleChannels Type StateFailOffchainPayments m loopOut loopIn = Inr eligible"
    show "\<forall>channel\<in>set eligible. ChannelID channel \<noteq> chanID"
    proof
      fix channel assume "channel \<in> set eligible"
      with a getEligibleChannels_Inr [of Type StateFailOffchainPayments m loopOut loopIn
          eligible channel] neg
      show "ChannelID channel \<noteq> chanID" by auto
    qed
  next
    assume a: "ListChannels (Lnd (cfg m)) = Inr channels \<and> channel \<in> set channels \<and>
      (\<forall>out\<in>set loopOut. OutState out = StateFailOffchainPayments \<and>
          ChannelID channel \<in> set (OutgoingChanSet out) \<longrightarrow>
          OutLastUpdate out + sint (FailureBackOff (params m)) \<le> Clock_Now (cfg m)) \<and>
      (\<forall>out\<in>set loopOut. Type (OutState out) = StateTypePending \<longrightarrow>
          OutgoingChanSet out \<noteq> [] \<and> ChannelID channel \<notin> set (OutgoingChanSet out)) \<and>
      (\<forall>swapIn\<in>set loopIn. Type (InState swapIn) = StateTypePending \<longrightarrow>
          LastHop swapIn \<noteq> None \<and> LastHop swapIn \<noteq> Some (PubKeyBytes channel))"
    then have nofail: "\<forall>out\<in>set loopOut. OutState out = StateFailOffchainPayments \<and>
        ChannelID channel \<in> set (OutgoingChanSet out) \<longrightarrow>
        \<not> Clock_Now (cfg m) + sint (- FailureBackOff (params m)) < OutLastUpdate out"
      using neg by auto
    from a show "\<exists>eligible. getEligibleChannels Type StateFailOffchainPayments m loopOut
        loopIn = Inr eligible \<and> channel \<in> set eligible"
      by (intro getEligibleChannels_keeps [OF _ _ nofail]) auto
  qed
qed

theorem getEligibleChannels_backoff_witness:
  "sint (FailureBackOff (params (ex_mgr (ex_params 86400000000000 750 6 (Some 0)) [] []))) \<noteq>
     - (2 ^ 63) \<and>
   Clock_Now (cfg (ex_mgr (ex_params 86400000000000 750 6 (Some 0)) [] [])) <
     OutLastUpdate (ex_failedOut 1603996400000000000) +
     sint (FailureBackOff (params (ex_mgr (ex_params 86400000000000 750 6 (Some 0)) [] []))) \<and>
   getEligibleChannels ex_Type ExFailOffchainPayments
     (ex_mgr (ex_params 86400000000000 750 6 (Some 0)) [] [])
     [ex_failedOut 1603996400000000000] [] = Inr [ex_chanB] \<and>
   ChannelID ex_chanB \<noteq> 1 \<and>
   OutLastUpdate (ex_failedOut 1603910000000000000) +
     sint (FailureBackOff (params (ex_mgr (ex_params 86400000000000 750 6 (Some 0)) [] [])))
     \<le> Clock_Now (cfg (ex_mgr (ex_params 86400000000000 750 6 (Some 0)) [] [])) \<and>
   (\<exists>eligible. getEligibleChannels ex_Type ExFailOffchainPayments
       (ex_mgr (ex_params 86400000000000 750 6 (Some 0)) [] [])
       [ex_failedOut 1603910000000000000] [] = Inr eligible \<and> ex_chanA \<in> set eligible)"
proof -
  let ?m = "ex_mgr (ex_params 86400000000000 750 6 (Some 0)) [] []"
  have h0: "sint (FailureBackOff (params ?m)) \<noteq> - (2 ^ 63)"
    by (simp add: ex_mgr_def ex_params_def)
  have h1: "Clock_Now (cfg ?m) <
     OutLastUpdate (ex_failedOut 1603996400000000000) + sint (FailureBackOff (params ?m))"
    by (simp add: ex_mgr_def ex_params_def ex_failedOut_def)
  have h2: "getEligibleChannels ex_Type ExFailOffchainPayments ?m
     [ex_failedOut 1603996400000000000] [] = Inr [ex_chanB]"
    by (simp add: ex_liq_defs liq_defs Let_def)
  have h3: "ex_failedOut 1603996400000000000 \<in> set [ex_failedOut 1603996400000000000] \<and>
     OutState (ex_failedOut 1603996400000000000) = ExFailOffchainPayments \<and>
     1 \<in> set (OutgoingChanSet (ex_failedOut 1603996400000000000))"
    by (simp add: ex_failedOut_def)
  have k1: "OutLastUpdate (ex_failedOut 1603910000000000000) +
     sint (FailureBackOff (params ?m)) \<le> Clock_Now (cfg ?m)"
    by (simp add: ex_mgr_def ex_params_def ex_failedOut_def)
  have k2: "ListChannels (Lnd (cfg ?m)) = Inr [ex_chanA, ex_chanB] \<and>
     ex_chanA \<in> set [ex_chanA, ex_chanB]"
    by (simp add: ex_mgr_def ex_lnd_def)
  have k3: "\<forall>out\<in>set [ex_failedOut 1603910000000000000].
     ex_Type (OutState out) = StateTypePending \<longrightarrow>
     OutgoingChanSet out \<noteq> [] \<and> ChannelID ex_chanA \<notin> set (OutgoingChanSet out)"
    by (simp add: ex_failedOut_def)
  note t = getEligibleChannels_backoff [OF h0, where Type = ex_Type
      and StateFailOffchainPayments = ExFailOffchainPayments
      and loopIn = "[]"]
  from t [where out = "ex_failedOut 1603996400000000000"
      and loopOut = "[ex_failedOut 1603996400000000000]" and chanID = 1
      and eligible = "[ex_chanB]"] h1 h2 h3
  have c1: "ChannelID ex_chanB \<noteq> 1" by simp
  from t [where loopOut = "[ex_failedOut 1603910000000000000]" and channel = ex_chanA
      and channels = "[ex_chanA, ex_chanB]"] k1 k2 k3
  have c2: "\<exists>eligible. getEligibleChannels ex_Type ExFailOffchainPayments ?m
       [ex_failedOut 1603910000000000000] [] = Inr eligible \<and> ex_chanA \<in> set eligible"
    by simp
  from h0 h1 h2 c1 k1 c2 show ?thesis by blast
qed

section \<open>Liquidity manager: copies of the parameters\<close>

lemma set_update_subset:
  "(k', v') \<in> set (AList.update k v al) \<Longrightarrow> (k', v') = (k, v) \<or> (k', v') \<in> set al"
  by (induction al) (auto split: if_splits)

lemma rule_at_append:
  "rule_at st r \<noteq> None \<Longrightarrow> rule_cells st' = rule_cells st @ ext \<Longrightarrow>
   rule_at st' r = rule_at st r"
  by (auto simp: rule_at_def nth_append split: option.splits if_splits)

lemma clone_rules_result:
  assumes "a < length (map_cells st)"
    and "distinct (map fst es)"
    and "\<forall>(k, r)\<in>set es. rule_at st r \<noteq> None"
  shows "\<exists>st' ext.
     clone_rules a es st = Returns st' \<and>
     rule_cells st' = rule_cells st @ ext \<and>
     length (map_cells st') = length (map_cells st) \<and>
     (\<forall>b. b \<noteq> a \<longrightarrow> map_cells st' ! b = map_cells st ! b) \<and>
     (\<forall>k. map_option (rule_at st') (map_of (map_cells st' ! a) k) =
          (case map_of es k of
             Some r \<Rightarrow> Some (rule_at st r)
           | None \<Rightarrow> map_option (rule_at st') (map_of (map_cells st ! a) k))) \<and>
     (distinct (map fst (map_cells st ! a)) \<longrightarrow> distinct (map fst (map_cells st' ! a))) \<and>
     (\<forall>(k, r)\<in>set (map_cells st' ! a).
        (k, r) \<in> set (map_cells st ! a) \<or>
        (\<exists>i. r = Some i \<and> length (rule_cells st) \<le> i \<and> i < length (rule_cells st')))"
  using assms
proof (induction es arbitrary: st)
  case Nil
  then show ?case by auto
next
  case (Cons e es)
  obtain channel rule where e: "e = (channel, rule)" by (cases e)
  from Cons.prems e obtain ruleCopy where rc: "rule_at st rule = Some ruleCopy" by auto
  let ?n = "length (rule_cells st)"
  let ?st1 = "st\<lparr> rule_cells := rule_cells st @ [ruleCopy],
                   map_cells := (map_cells st)
                     [a := AList.update channel (Some ?n) (map_cells st ! a)] \<rparr>"
  have step: "clone_rules a (e # es) st = clone_rules a es ?st1"
    by (simp add: e rc)
  have a1: "a < length (map_cells ?st1)" using Cons.prems(1) by simp
  have d1: "distinct (map fst es)" using Cons.prems(2) by simp
  have keep: "\<And>r. rule_at st r \<noteq> None \<Longrightarrow> rule_at ?st1 r = rule_at st r"
    by (rule rule_at_append [where ext = "[ruleCopy]"]) simp_all
  have r1: "\<forall>(k, r)\<in>set es. rule_at ?st1 r \<noteq> None"
    using Cons.prems(3) keep by fastforce
  from Cons.IH [OF a1 d1 r1] obtain st' ext where
    ih1: "clone_rules a es ?st1 = Returns st'" and
    ih2: "rule_cells st' = rule_cells ?st1 @ ext" and
    ih3: "length (map_cells st') = length (map_cells ?st1)" and
    ih4: "\<forall>b. b \<noteq> a \<longrightarrow> map_cells st' ! b = map_cells ?st1 ! b" and
    ih5: "\<forall>k. map_option (rule_at st') (map_of (map_cells st' ! a) k) =
          (case map_of es k of
             Some r \<Rightarrow> Some (rule_at ?st1 r)
           | None \<Rightarrow> map_option (rule_at st') (map_of (map_cells ?st1 ! a) k))" and
    ih6: "distinct (map fst (map_cells ?st1 ! a)) \<longrightarrow> distinct (map fst (map_cells st' ! a))" and
    ih7: "\<forall>(k, r)\<in>set (map_cells st' ! a).
        (k, r) \<in> set (map_cells ?st1 ! a) \<or>
        (\<exists>i. r = Some i \<and> length (rule_cells ?st1) \<le> i \<and> i < length (rule_cells st'))"
    by blast
  have cell1: "map_cells ?st1 ! a = AList.update channel (Some ?n) (map_cells st ! a)"
    using Cons.prems(1) by simp
  have c2: "rule_cells st' = rule_cells st @ (ruleCopy # ext)" using ih2 by simp
  have c3: "length (map_cells st') = length (map_cells st)" using ih3 by simp
  have c4: "\<forall>b. b \<noteq> a \<longrightarrow> map_cells st' ! b = map_cells st ! b" using ih4 by simp
  have new: "rule_at st' (Some ?n) = Some ruleCopy"
    using c2 by (simp add: rule_at_def nth_append)
  have notin: "map_of es channel = None"
    using Cons.prems(2) e by (simp add: map_of_eq_None_iff)
  have c5: "\<forall>k. map_option (rule_at st') (map_of (map_cells st' ! a) k) =
          (case map_of (e # es) k of
             Some r \<Rightarrow> Some (rule_at st r)
           | None \<Rightarrow> map_option (rule_at st') (map_of (map_cells st ! a) k))"
  proof
    fix k
    show "map_option (rule_at st') (map_of (map_cells st' ! a) k) =
          (case map_of (e # es) k of
             Some r \<Rightarrow> Some (rule_at st r)
           | None \<Rightarrow> map_option (rule_at st') (map_of (map_cells st ! a) k))"
    proof (cases "map_of es k")
      case None
      with ih5 have "map_option (rule_at st') (map_of (map_cells st' ! a) k) =
        map_option (rule_at st') (map_of (map_cells ?st1 ! a) k)"
        by simp
      with None new rc Cons.prems(1) show ?thesis
        by (simp add: update_conv' e)
    next
      case (Some r)
      then have "(k, r) \<in> set es" by (rule map_of_SomeD)
      with Cons.prems(3) have "rule_at st r \<noteq> None" by auto
      with keep have "rule_at ?st1 r = rule_at st r" by simp
      moreover from Some notin have "k \<noteq> channel" by auto
      ultimately show ?thesis using ih5 Some Cons.prems(1) by (simp add: e)
    qed
  qed
  have c6: "distinct (map fst (map_cells st ! a)) \<longrightarrow> distinct (map fst (map_cells st' ! a))"
    using ih6 Cons.prems(1) by (simp add: distinct_update)
  have c7: "\<forall>(k, r)\<in>set (map_cells st' ! a).
        (k, r) \<in> set (map_cells st ! a) \<or>
        (\<exists>i. r = Some i \<and> length (rule_cells st) \<le> i \<and> i < length (rule_cells st'))"
  proof (clarify)
    fix k r assume in': "(k, r) \<in> set (map_cells st' ! a)"
      and no: "\<not> (\<exists>i. r = Some i \<and> length (rule_cells st) \<le> i \<and> i < length (rule_cells st'))"
    have len: "length (rule_cells st) < length (rule_cells st')" using c2 by simp
    have "(k, r) \<in> set (map_cells ?st1 ! a)"
    proof (rule ccontr)
      assume "(k, r) \<notin> set (map_cells ?st1 ! a)"
      with ih7 in' obtain i where
        "r = Some i" "length (rule_cells ?st1) \<le> i" "i < length (rule_cells st')"
        by blast
      then have "r = Some i \<and> length (rule_cells st) \<le> i \<and> i < length (rule_cells st')"
        by simp
      with no show False by blast
    qed
    then have "(k, r) = (channel, Some ?n) \<or> (k, r) \<in> set (map_cells st ! a)"
      unfolding cell1 by (rule set_update_subset)
    moreover have "r \<noteq> Some ?n" using no len by blast
    ultimately show "(k, r) \<in> set (map_cells st ! a)" by blast
  qed
  from step ih1 have c1: "clone_rules a (e # es) st = Returns st'" by simp
  show ?case
    by (rule exI [of _ st'], rule exI [of _ "ruleCopy # ext"])
      (intro conjI; fact c1 c2 c3 c4 c5 c6 c7)
qed


lemma params_value_frame:
  assumes "rules_of st' (ChannelRules p) = rules_of st (ChannelRules p)"
    and "\<forall>(k, r)\<in>set (rules_of st (ChannelRules p)). rule_at st' r = rule_at st r"
  shows "params_value st' p = params_value st p"
proof -
  have "map_option (rule_at st') (map_of (rules_of st (ChannelRules p)) k) =
        map_option (rule_at st) (map_of (rules_of st (ChannelRules p)) k)" for k
  proof (cases "map_of (rules_of st (ChannelRules p)) k")
    case None
    then show ?thesis by simp
  next
    case (Some r)
    then have "(k, r) \<in> set (rules_of st (ChannelRules p))" by (rule map_of_SomeD)
    with assms(2) Some show ?thesis by auto
  qed
  with assms(1) show ?thesis by (simp add: params_value_def)
qed

lemma cloneParameters_result:
  assumes d: "distinct (map fst (rules_of st (ChannelRules p)))"
    and nn: "\<forall>(k, r)\<in>set (rules_of st (ChannelRules p)). rule_at st r \<noteq> None"
  obtains st' ext where
    "cloneParameters st p = Returns (p\<lparr> ChannelRules := Some (length (map_cells st)) \<rparr>, st')"
    and "rule_cells st' = rule_cells st @ ext"
    and "length (map_cells st') = Suc (length (map_cells st))"
    and "\<forall>b < length (map_cells st). map_cells st' ! b = map_cells st ! b"
    and "params_value st' (p\<lparr> ChannelRules := Some (length (map_cells st)) \<rparr>) =
         params_value st p"
    and "distinct (map fst (map_cells st' ! length (map_cells st)))"
    and "\<forall>(k, r)\<in>set (map_cells st' ! length (map_cells st)).
           \<exists>i. r = Some i \<and> length (rule_cells st) \<le> i \<and> i < length (rule_cells st')"
proof -
  let ?a = "length (map_cells st)"
  let ?es = "rules_of st (ChannelRules p)"
  let ?st0 = "st\<lparr> map_cells := map_cells st @ [[]] \<rparr>"
  have same: "rule_at ?st0 r = rule_at st r" for r by (cases r) (simp_all add: rule_at_def)
  have a0: "?a < length (map_cells ?st0)" by simp
  have nn0: "\<forall>(k, r)\<in>set ?es. rule_at ?st0 r \<noteq> None" using nn same by simp
  have cell0: "map_cells ?st0 ! ?a = []" by simp
  from clone_rules_result [OF a0 d nn0] obtain st' ext where
    r: "clone_rules ?a ?es ?st0 = Returns st' \<and>
     rule_cells st' = rule_cells ?st0 @ ext \<and>
     length (map_cells st') = length (map_cells ?st0) \<and>
     (\<forall>b. b \<noteq> ?a \<longrightarrow> map_cells st' ! b = map_cells ?st0 ! b) \<and>
     (\<forall>k. map_option (rule_at st') (map_of (map_cells st' ! ?a) k) =
          (case map_of ?es k of
             Some r \<Rightarrow> Some (rule_at ?st0 r)
           | None \<Rightarrow> map_option (rule_at st') (map_of (map_cells ?st0 ! ?a) k))) \<and>
     (distinct (map fst (map_cells ?st0 ! ?a)) \<longrightarrow> distinct (map fst (map_cells st' ! ?a))) \<and>
     (\<forall>(k, r)\<in>set (map_cells st' ! ?a).
        (k, r) \<in> set (map_cells ?st0 ! ?a) \<or>
        (\<exists>i. r = Some i \<and> length (rule_cells ?st0) \<le> i \<and> i < length (rule_cells st')))"
    by (elim exE)
  from r have r1: "clone_rules ?a ?es ?st0 = Returns st'" by (elim conjE)
  from r have r2: "rule_cells st' = rule_cells ?st0 @ ext" by (elim conjE)
  from r have r3: "length (map_cells st') = length (map_cells ?st0)" by (elim conjE)
  from r have r4: "\<forall>b. b \<noteq> ?a \<longrightarrow> map_cells st' ! b = map_cells ?st0 ! b" by (elim conjE)
  from r have r5: "\<forall>k. map_option (rule_at st') (map_of (map_cells st' ! ?a) k) =
          (case map_of ?es k of
             Some r \<Rightarrow> Some (rule_at ?st0 r)
           | None \<Rightarrow> map_option (rule_at st') (map_of (map_cells ?st0 ! ?a) k))"
    by (elim conjE)
  from r have r6: "distinct (map fst (map_cells ?st0 ! ?a)) \<longrightarrow>
      distinct (map fst (map_cells st' ! ?a))"
    by (elim conjE)
  from r have r7: "\<forall>(k, r)\<in>set (map_cells st' ! ?a).
        (k, r) \<in> set (map_cells ?st0 ! ?a) \<or>
        (\<exists>i. r = Some i \<and> length (rule_cells ?st0) \<le> i \<and> i < length (rule_cells st'))"
    by (elim conjE)
  have c1: "cloneParameters st p = Returns (p\<lparr> ChannelRules := Some ?a \<rparr>, st')"
    using r1 by (simp add: cloneParameters_def)
  have c2: "rule_cells st' = rule_cells st @ ext" using r2 by simp
  have c3: "length (map_cells st') = Suc ?a" using r3 by simp
  have c4: "\<forall>b < ?a. map_cells st' ! b = map_cells st ! b"
    using r4 by (simp add: nth_append)
  have look: "map_option (rule_at st') (map_of (map_cells st' ! ?a) k) =
      map_option (rule_at st) (map_of ?es k)" for k
    using r5 [rule_format, of k] by (simp add: same split: option.splits)
  have c5: "params_value st' (p\<lparr> ChannelRules := Some ?a \<rparr>) = params_value st p"
    using look c3 by (simp add: params_value_def rules_of_def)
  have c6: "distinct (map fst (map_cells st' ! ?a))" using r6 by simp
  have c7: "\<forall>(k, r)\<in>set (map_cells st' ! ?a).
        \<exists>i. r = Some i \<and> length (rule_cells st) \<le> i \<and> i < length (rule_cells st')"
  proof (clarify)
    fix k r assume "(k, r) \<in> set (map_cells st' ! ?a)"
    with r7 have "(k, r) \<in> set (map_cells ?st0 ! ?a) \<or>
        (\<exists>i. r = Some i \<and> length (rule_cells ?st0) \<le> i \<and> i < length (rule_cells st'))"
      by blast
    then show "\<exists>i. r = Some i \<and> length (rule_cells st) \<le> i \<and> i < length (rule_cells st')"
      by (simp add: cell0)
  qed
  show ?thesis by (rule that [OF c1 c2 c3 c4 c5 c6 c7])
qed

text \<open>
  Claim C8. Let \<open>p\<close> pass \<open>validate\<close>, with a map as Go has them (no key twice) and no
  nil rule in it. Then \<open>SetParameters p\<close> succeeds, and \<open>GetParameters\<close> after it returns
  parameters \<open>q\<close> of the same value as \<open>p\<close>: the same backoff, fee limit and confirmation
  target, and the same rule under each channel id. Whatever the caller then does to the
  map of \<open>q\<close> and to the rules in it, the value of the manager's parameters stays that of
  \<open>p\<close>, and so does the value a later \<open>GetParameters\<close> returns.
\<close>

theorem GetParameters_after_SetParameters:
  assumes valid: "validate rule_validate AbsoluteFeePerKwFloor st p
                    (MinimumConfirmations (cfg m)) = None"
    and keys: "distinct (map fst (rules_of st (ChannelRules p)))"
    and rules: "\<forall>(channel, rule)\<in>set (rules_of st (ChannelRules p)). rule_at st rule \<noteq> None"
  shows "\<exists>m1 st1 q st2.
     SetParameters rule_validate AbsoluteFeePerKwFloor m st p = Returns (None, m1, st1) \<and>
     GetParameters m1 st1 = Returns (q, st2) \<and>
     params_value st2 q = params_value st p \<and>
     (\<forall>st3. mutated_through st2 q st3 \<longrightarrow>
        params_value st3 (params m1) = params_value st p \<and>
        (\<exists>q' st4. GetParameters m1 st3 = Returns (q', st4) \<and>
                  params_value st4 q' = params_value st p))"
proof -
  let ?ma = "length (map_cells st)"
  let ?stored = "p\<lparr> ChannelRules := Some ?ma \<rparr>"
  obtain st1 ext1 where
    s1: "cloneParameters st p = Returns (?stored, st1)" and
    s2: "rule_cells st1 = rule_cells st @ ext1" and
    s3: "length (map_cells st1) = Suc ?ma" and
    s4: "\<forall>b < ?ma. map_cells st1 ! b = map_cells st ! b" and
    s5: "params_value st1 ?stored = params_value st p" and
    s6: "distinct (map fst (map_cells st1 ! ?ma))" and
    s7: "\<forall>(k, r)\<in>set (map_cells st1 ! ?ma).
        \<exists>i. r = Some i \<and> length (rule_cells st) \<le> i \<and> i < length (rule_cells st1)"
    by (rule cloneParameters_result [OF keys rules])
  let ?mgr = "m\<lparr> params := ?stored \<rparr>"
  have set: "SetParameters rule_validate AbsoluteFeePerKwFloor m st p = Returns (None, ?mgr, st1)"
    using valid s1 by (simp add: SetParameters_def)
  have ro1: "rules_of st1 (ChannelRules ?stored) = map_cells st1 ! ?ma"
    using s3 by (simp add: rules_of_def)
  have live1: "rule_at st1 r \<noteq> None" if "(k, r) \<in> set (map_cells st1 ! ?ma)" for k r
    using s7 that by (auto simp: rule_at_def)
  have keys1: "distinct (map fst (rules_of st1 (ChannelRules ?stored)))" using s6 ro1 by simp
  have rules1: "\<forall>(k, r)\<in>set (rules_of st1 (ChannelRules ?stored)). rule_at st1 r \<noteq> None"
    using live1 ro1 by auto
  let ?ga = "length (map_cells st1)"
  let ?got = "?stored\<lparr> ChannelRules := Some ?ga \<rparr>"
  obtain st2 ext2 where
    g1: "cloneParameters st1 ?stored = Returns (?got, st2)" and
    g2: "rule_cells st2 = rule_cells st1 @ ext2" and
    g3: "length (map_cells st2) = Suc ?ga" and
    g4: "\<forall>b < ?ga. map_cells st2 ! b = map_cells st1 ! b" and
    g5: "params_value st2 ?got = params_value st1 ?stored" and
    g6: "distinct (map fst (map_cells st2 ! ?ga))" and
    g7: "\<forall>(k, r)\<in>set (map_cells st2 ! ?ga).
        \<exists>i. r = Some i \<and> length (rule_cells st1) \<le> i \<and> i < length (rule_cells st2)"
    by (rule cloneParameters_result [OF keys1 rules1])
  have get: "GetParameters ?mgr st1 = Returns (?got, st2)"
    using g1 by (simp add: GetParameters_def)
  have val: "params_value st2 ?got = params_value st p" using g5 s5 by simp
  have ro2: "rules_of st2 (ChannelRules ?got) = map_cells st2 ! ?ga"
    using g3 by (simp add: rules_of_def)
  have after: "params_value st3 (params ?mgr) = params_value st p \<and>
        (\<exists>q' st4. GetParameters ?mgr st3 = Returns (q', st4) \<and>
                  params_value st4 q' = params_value st p)"
    if mt: "mutated_through st2 ?got st3" for st3
  proof -
    from mt have l1: "length (rule_cells st2) \<le> length (rule_cells st3)"
      and l2: "length (map_cells st2) \<le> length (map_cells st3)"
      and m3: "\<forall>a < length (map_cells st2).
        Some a \<noteq> ChannelRules ?got \<longrightarrow> map_cells st3 ! a = map_cells st2 ! a"
      and r3: "\<forall>a < length (rule_cells st2).
        Some a \<notin> snd ` set (rules_of st2 (ChannelRules ?got)) \<longrightarrow>
        rule_cells st3 ! a = rule_cells st2 ! a"
      by (simp_all add: mutated_through_def)
    have cell3: "map_cells st3 ! ?ma = map_cells st1 ! ?ma"
      using m3 g3 g4 s3 by simp
    have ro3: "rules_of st3 (ChannelRules ?stored) = rules_of st1 (ChannelRules ?stored)"
      using cell3 l2 g3 s3 by (simp add: rules_of_def)
    have same: "rule_at st3 r = rule_at st1 r" if "(k, r) \<in> set (map_cells st1 ! ?ma)" for k r
    proof -
      from s7 that obtain i where i: "r = Some i" "i < length (rule_cells st1)" by auto
      have "Some i \<notin> snd ` set (map_cells st2 ! ?ga)"
      proof
        assume "Some i \<in> snd ` set (map_cells st2 ! ?ga)"
        then obtain k' where "(k', Some i) \<in> set (map_cells st2 ! ?ga)" by auto
        with g7 have "length (rule_cells st1) \<le> i" by auto
        with i show False by simp
      qed
      with r3 ro2 i g2 have "rule_cells st3 ! i = rule_cells st2 ! i" by simp
      with i g2 l1 show ?thesis by (simp add: rule_at_def nth_append)
    qed
    have v3: "params_value st3 ?stored = params_value st1 ?stored"
      using ro3 same ro1 by (intro params_value_frame) auto
    have keys3: "distinct (map fst (rules_of st3 (ChannelRules ?stored)))"
      using keys1 ro3 by simp
    have rules3: "\<forall>(k, r)\<in>set (rules_of st3 (ChannelRules ?stored)). rule_at st3 r \<noteq> None"
      using rules1 ro3 ro1 same by auto
    obtain q' st4 where
      "cloneParameters st3 ?stored = Returns (q', st4)" and
      "params_value st4 q' = params_value st3 ?stored"
      by (rule cloneParameters_result [OF keys3 rules3])
    with v3 s5 show ?thesis by (auto simp: GetParameters_def)
  qed
  from after have all: "\<forall>st3. mutated_through st2 ?got st3 \<longrightarrow>
        params_value st3 (params ?mgr) = params_value st p \<and>
        (\<exists>q' st4. GetParameters ?mgr st3 = Returns (q', st4) \<and>
                  params_value st4 q' = params_value st p)"
    by (intro allI impI)
  show ?thesis
    by (rule exI [of _ ?mgr], rule exI [of _ st1], rule exI [of _ ?got], rule exI [of _ st2])
      (intro conjI; fact set get val all)
qed

theorem GetParameters_after_SetParameters_witness:
  "validate ex_rule_validate 250 ex_store (ex_params 86400000000000 750 6 (Some 0))
     (MinimumConfirmations (cfg (ex_mgr (ex_params 3600000000000 900 9 (Some 1)) [] []))) = None \<and>
   distinct (map fst (rules_of ex_store (ChannelRules (ex_params 86400000000000 750 6 (Some 0))))) \<and>
   SetParameters ex_rule_validate 250 (ex_mgr (ex_params 3600000000000 900 9 (Some 1)) [] [])
     ex_store (ex_params 86400000000000 750 6 (Some 0)) =
     Returns (None, ex_mgr (ex_params 86400000000000 750 6 (Some 3)) [] [], ex_store_set) \<and>
   GetParameters (ex_mgr (ex_params 86400000000000 750 6 (Some 3)) [] []) ex_store_set =
     Returns (ex_params 86400000000000 750 6 (Some 4), ex_store_get) \<and>
   params_value ex_store_get (ex_params 86400000000000 750 6 (Some 4)) =
     params_value ex_store (ex_params 86400000000000 750 6 (Some 0)) \<and>
   mutated_through ex_store_get (ex_params 86400000000000 750 6 (Some 4)) ex_store_mutated \<and>
   params_value ex_store_mutated (params (ex_mgr (ex_params 86400000000000 750 6 (Some 3)) [] [])) =
     params_value ex_store (ex_params 86400000000000 750 6 (Some 0)) \<and>
   (\<exists>q' st4. GetParameters (ex_mgr (ex_params 86400000000000 750 6 (Some 3)) [] [])
        ex_store_mutated = Returns (q', st4) \<and>
      params_value st4 q' = params_value ex_store (ex_params 86400000000000 750 6 (Some 0)))"
proof -
  let ?m = "ex_mgr (ex_params 3600000000000 900 9 (Some 1)) [] []"
  let ?p = "ex_params 86400000000000 750 6 (Some 0)"
  let ?mgr = "ex_mgr (ex_params 86400000000000 750 6 (Some 3)) [] []"
  let ?got = "ex_params 86400000000000 750 6 (Some 4)"
  have h1: "validate ex_rule_validate 250 ex_store ?p (MinimumConfirmations (cfg ?m)) = None"
    by (simp add: ex_liq_defs liq_defs)
  have h2: "distinct (map fst (rules_of ex_store (ChannelRules ?p)))"
    by (simp add: ex_liq_defs liq_defs)
  have h3: "\<forall>(channel, rule)\<in>set (rules_of ex_store (ChannelRules ?p)).
      rule_at ex_store rule \<noteq> None"
    by (simp add: ex_liq_defs liq_defs)
  have e1: "SetParameters ex_rule_validate 250 ?m ex_store ?p =
      Returns (None, ?mgr, ex_store_set)"
    by (simp add: ex_liq_defs liq_defs ex_store_set_def)
  have e2: "GetParameters ?mgr ex_store_set = Returns (?got, ex_store_get)"
    by (simp add: ex_liq_defs liq_defs ex_store_set_def ex_store_get_def)
  have e3: "mutated_through ex_store_get ?got ex_store_mutated"
    by (simp add: mutated_through_def ex_store_get_def ex_store_mutated_def ex_params_def
        rules_of_def nth_Cons' less_Suc_eq numeral_nat)
  from GetParameters_after_SetParameters [OF h1 h2 h3] obtain m1 st1 q st2 where
    t1: "SetParameters ex_rule_validate 250 ?m ex_store ?p = Returns (None, m1, st1)" and
    t2: "GetParameters m1 st1 = Returns (q, st2)" and
    t3: "params_value st2 q = params_value ex_store ?p" and
    t4: "\<forall>st3. mutated_through st2 q st3 \<longrightarrow>
        params_value st3 (params m1) = params_value ex_store ?p \<and>
        (\<exists>q' st4. GetParameters m1 st3 = Returns (q', st4) \<and>
                  params_value st4 q' = params_value ex_store ?p)"
    by (elim exE conjE)
  from t1 e1 have m1: "m1 = ?mgr" and st1: "st1 = ex_store_set" by simp_all
  from t2 e2 m1 st1 have q: "q = ?got" and st2: "st2 = ex_store_get" by simp_all
  from t3 q st2 have c1: "params_value ex_store_get ?got = params_value ex_store ?p" by simp
  from t4 [rule_format, of ex_store_mutated] e3 q st2 m1
  have c2: "params_value ex_store_mutated (params ?mgr) = params_value ex_store ?p \<and>
        (\<exists>q' st4. GetParameters ?mgr ex_store_mutated = Returns (q', st4) \<and>
                  params_value st4 q' = params_value ex_store ?p)"
    by simp
  from h1 h2 e1 e2 c1 e3 c2 show ?thesis by (intro conjI) (elim conjE, assumption)+
qed

end
